theory Spec2Isabelle
  imports Complex_Main "HOL-Library.Sublist"
begin

text \<open>
  The chat-log schema of \<^verbatim>\<open>src/index.ts\<close>: the discriminators that choose the class of a
  polymorphic field, the transform of a raw tree into a typed graph, the validation of
  that graph, and \<^verbatim>\<open>Assessment.fromObject\<close>, which runs one after the other. The
  decorators of the source are data here, and the two libraries that read them
  (class-transformer, class-validator) are functions over that data.
\<close>

section \<open>JavaScript values\<close>

text \<open>
  The classes declared in \<^verbatim>\<open>src/index.ts\<close>. A type function of a \<^verbatim>\<open>@Type\<close>
  decorator returns one of them (or \<^verbatim>\<open>Date\<close>).
\<close>

datatype cls =
    Assessment | Message | Answer | Question | ButtonGroupQuestion | Hint | BaseElement
  | QuestionContent | Trait | QuestionRule | QuestionOption | ButtonGroupOption
  | Trigger | Style

text \<open>
  A number is a finite value, \<^verbatim>\<open>NaN\<close> or an infinity; nothing in the source computes
  with numbers, \<^verbatim>\<open>@IsNumber\<close> only asks whether one is finite.
\<close>

datatype jsnum = Finite real | NaN | PosInfinity | NegInfinity

text \<open>
  The values the pipeline sees: the JSON-like raw tree, and the typed graph the transform
  builds from it. An object is its constructor (\<open>None\<close> for a plain object literal,
  \<open>Some c\<close> for \<^verbatim>\<open>new c()\<close>) and its own enumerable properties in property order, keys
  distinct. The constructor is what the property \<^verbatim>\<open>constructor\<close> of the object reads, so
  an own property of that name is not among the entries. A \<^verbatim>\<open>Date\<close> is its time value,
  \<open>None\<close> for the \<^verbatim>\<open>NaN\<close> of an Invalid Date.
\<close>

datatype jsval =
    JUndefined
  | JNull
  | JBool bool
  | JNum jsnum
  | JStr string
  | JDate "int option"
  | JArr "jsval list"
  | JObj "cls option" "(string \<times> jsval) list"

datatype js_error = Error string | TypeError string

fun message :: "js_error \<Rightarrow> string" where
  "message (Error m) = m"
| "message (TypeError m) = m"

text \<open>The own property \<open>k\<close> of an object with the entries \<open>kvs\<close>; \<^verbatim>\<open>undefined\<close> when absent.\<close>

definition own :: "(string \<times> jsval) list \<Rightarrow> string \<Rightarrow> jsval" where
  "own kvs k = (case map_of kvs k of None \<Rightarrow> JUndefined | Some v \<Rightarrow> v)"

text \<open>
  \<^verbatim>\<open>v.k\<close> on a value that is neither \<^verbatim>\<open>null\<close> nor \<^verbatim>\<open>undefined\<close>, for the names the
  source reads this way (\<^verbatim>\<open>sender\<close>, \<^verbatim>\<open>data\<close>, \<^verbatim>\<open>question\<close>, \<^verbatim>\<open>types\<close> and the schema's
  field names): none of them is a property of a string, an array, a number, a boolean, a
  Date or of \<^verbatim>\<open>Object.prototype\<close>, so only an object's own entry can answer.
\<close>

fun get :: "jsval \<Rightarrow> string \<Rightarrow> jsval" where
  "get (JObj c kvs) k = own kvs k"
| "get v k = JUndefined"

text \<open>Optional chaining \<^verbatim>\<open>v?.k\<close>: \<^verbatim>\<open>undefined\<close> on \<^verbatim>\<open>null\<close> and \<^verbatim>\<open>undefined\<close>.\<close>

fun opt_chain :: "jsval \<Rightarrow> string \<Rightarrow> jsval" where
  "opt_chain JUndefined k = JUndefined"
| "opt_chain JNull k = JUndefined"
| "opt_chain v k = get v k"

text \<open>
  \<^verbatim>\<open>t?.includes(x)\<close> for a string \<open>x\<close>. The chain stops on \<^verbatim>\<open>null\<close> and \<^verbatim>\<open>undefined\<close>
  only. An array answers with \<^verbatim>\<open>Array.prototype.includes\<close> (an element equal to the
  string), a string with \<^verbatim>\<open>String.prototype.includes\<close> (a substring test). Every other
  value has no callable \<^verbatim>\<open>includes\<close> (a number, a boolean, a Date; an object of the raw
  tree holds data, never a function), and calling it throws a \<^verbatim>\<open>TypeError\<close>. Its message
  is the engine's: the text of the callee as the source writes it, \<open>callee\<close> here, and
  \<^verbatim>\<open>is not a function\<close>.
\<close>

definition not_a_function :: "string \<Rightarrow> string" where
  "not_a_function callee = callee @ '' is not a function''"

fun opt_includes :: "string \<Rightarrow> jsval \<Rightarrow> string \<Rightarrow> js_error + jsval" where
  "opt_includes callee JUndefined x = Inr JUndefined"
| "opt_includes callee JNull x = Inr JUndefined"
| "opt_includes callee (JArr xs) x = Inr (JBool (JStr x \<in> set xs))"
| "opt_includes callee (JStr s) x = Inr (JBool (sublist x s))"
| "opt_includes callee v x = Inl (TypeError (not_a_function callee))"

text \<open>The truth value a condition takes (\<^verbatim>\<open>ToBoolean\<close>).\<close>

fun truthy :: "jsval \<Rightarrow> bool" where
  "truthy JUndefined = False"
| "truthy JNull = False"
| "truthy (JBool b) = b"
| "truthy (JNum (Finite r)) = (r \<noteq> 0)"
| "truthy (JNum NaN) = False"
| "truthy (JNum n) = True"
| "truthy (JStr s) = (s \<noteq> [])"
| "truthy v = True"

section \<open>Enumerations\<close>

definition MessageSender :: "string list" where
  "MessageSender = [''AGENT'', ''CANDIDATE'']"

definition QuestionType :: "string list" where
  "QuestionType =
     [''HINT'', ''FTQ'', ''MCQ'', ''VOICE'', ''VIDEO'', ''SLIDER'', ''DROPDOWN'',
      ''BUTTON_GROUP_QUESTION'']"

definition QuestionContentType :: "string list" where
  "QuestionContentType = [''TEXT'', ''VOICE'', ''VIDEO'', ''SLIDER'']"

definition RuleName :: "string list" where
  "RuleName =
     [''maxTextLength'', ''minTextLength'', ''recommendedTextLength'', ''minVoiceSeconds'',
      ''maxVoiceSeconds'', ''recommendedVoiceSeconds'']"

definition ButtonType :: "string list" where
  "ButtonType = [''PRIMARY'', ''SECONDARY'', ''DEFAULT'']"

abbreviation CANDIDATE :: string where "CANDIDATE \<equiv> ''CANDIDATE''"
abbreviation HINT :: string where "HINT \<equiv> ''HINT''"
abbreviation BGQ :: string where "BGQ \<equiv> ''BUTTON_GROUP_QUESTION''"

section \<open>Discriminators\<close>

text \<open>The three exported helpers, lines 25 to 30.\<close>

definition isHint :: "jsval \<Rightarrow> js_error + jsval" where
  "isHint messageData =
     opt_includes ''messageData?.types?.includes'' (opt_chain messageData ''types'') HINT"

definition isButtonGroupQuestion :: "jsval \<Rightarrow> js_error + jsval" where
  "isButtonGroupQuestion messageData =
     opt_includes ''messageData?.types?.includes'' (opt_chain messageData ''types'') BGQ"

definition isAnswer :: "jsval \<Rightarrow> bool" where
  "isAnswer msg = (opt_chain msg ''sender'' = JStr CANDIDATE)"

text \<open>
  The type function of \<^verbatim>\<open>Message.data\<close> (lines 339 to 349), applied to the raw message
  node \<^verbatim>\<open>object\<close>. An exception of a condition leaves the function at once.
\<close>

definition Message_data_type :: "jsval \<Rightarrow> js_error + cls" where
  "Message_data_type object =
     (if opt_chain object ''sender'' = JStr CANDIDATE then Inr Answer
      else
        case opt_includes ''object?.data?.types?.includes''
               (opt_chain (opt_chain object ''data'') ''types'') HINT of
          Inl e \<Rightarrow> Inl e
        | Inr h \<Rightarrow>
            if truthy h then Inr Hint
            else
              case opt_includes ''object?.data?.types?.includes''
               (opt_chain (opt_chain object ''data'') ''types'') BGQ of
                Inl e \<Rightarrow> Inl e
              | Inr b \<Rightarrow> if truthy b then Inr ButtonGroupQuestion else Inr Question)"

text \<open>The type function of \<^verbatim>\<open>Answer.question\<close> (lines 302 to 308).\<close>

definition Answer_question_type :: "jsval \<Rightarrow> js_error + cls" where
  "Answer_question_type object =
     (case opt_includes ''object?.question?.types?.includes''
             (opt_chain (opt_chain object ''question'') ''types'') BGQ of
        Inl e \<Rightarrow> Inl e
      | Inr b \<Rightarrow> if truthy b then Inr ButtonGroupQuestion else Inr Question)"

text \<open>
  The precedence as the specification words it, on the sender tag and the payload's
  type tags: the candidate's answer first, then the hint, then the button group, and the
  plain question as the default.
\<close>

definition payload_variant :: "jsval \<Rightarrow> jsval list \<Rightarrow> cls" where
  "payload_variant sender tags =
     (if sender = JStr CANDIDATE then Answer
      else if JStr HINT \<in> set tags then Hint
      else if JStr BGQ \<in> set tags then ButtonGroupQuestion
      else Question)"

definition question_variant :: "jsval list \<Rightarrow> cls" where
  "question_variant tags = (if JStr BGQ \<in> set tags then ButtonGroupQuestion else Question)"

text \<open>
  The type tags of the node found under \<open>k\<close>: the elements of its \<^verbatim>\<open>types\<close> array, and
  none when the node or its \<^verbatim>\<open>types\<close> is absent (\<^verbatim>\<open>undefined\<close> or \<^verbatim>\<open>null\<close>).
\<close>

fun tags_of :: "jsval \<Rightarrow> jsval list option" where
  "tags_of JUndefined = Some []"
| "tags_of JNull = Some []"
| "tags_of (JArr xs) = Some xs"
| "tags_of v = None"

section \<open>The schema\<close>

text \<open>
  What a \<^verbatim>\<open>@Type\<close> function returns: a class of the schema, or \<^verbatim>\<open>Date\<close>.
\<close>

datatype ttype = TClass cls | TDate

text \<open>
  The decorators of the source. The flag of \<open>IsString\<close>, \<open>IsEnum\<close> and \<open>ValidateNested\<close>
  is the option \<^verbatim>\<open>each\<close>; \<open>IsEnum\<close> carries the values of its enumeration; \<open>Type\<close> carries
  the type function, applied to the raw node the field is read from.
\<close>

datatype decorator =
    Expose
  | Type "jsval \<Rightarrow> js_error + ttype"
  | IsString bool
  | IsEnum "string list" bool
  | IsOptional
  | IsDefined
  | ValidateNested bool
  | IsNumber
  | IsDate
  | IsArray
  | IsMongoId
  | IsNotEmpty

fun name :: "cls \<Rightarrow> string" where
  "name Assessment = ''Assessment''"
| "name Message = ''Message''"
| "name Answer = ''Answer''"
| "name Question = ''Question''"
| "name ButtonGroupQuestion = ''ButtonGroupQuestion''"
| "name Hint = ''Hint''"
| "name BaseElement = ''BaseElement''"
| "name QuestionContent = ''QuestionContent''"
| "name Trait = ''Trait''"
| "name QuestionRule = ''QuestionRule''"
| "name QuestionOption = ''QuestionOption''"
| "name ButtonGroupOption = ''ButtonGroupOption''"
| "name Trigger = ''Trigger''"
| "name Style = ''Style''"

fun extends :: "cls \<Rightarrow> cls option" where
  "extends Hint = Some BaseElement"
| "extends Question = Some BaseElement"
| "extends ButtonGroupOption = Some QuestionOption"
| "extends ButtonGroupQuestion = Some Question"
| "extends c = None"

text \<open>
  The fields each class declares itself, in the order of the source, each with its
  decorators from top to bottom (lines 137 to 378).
\<close>

fun members :: "cls \<Rightarrow> (string \<times> decorator list) list" where
  "members BaseElement =
     [(''_id'', [Expose, IsMongoId]),
      (''types'', [Expose, IsString True, IsEnum QuestionType True, IsArray]),
      (''contents'',
        [Expose, Type (\<lambda>object. Inr (TClass QuestionContent)), ValidateNested True, IsArray])]"
| "members Hint = []"
| "members QuestionContent =
     [(''value'', [Expose, IsString False]),
      (''types'', [Expose, IsString True, IsEnum QuestionContentType True])]"
| "members Trait =
     [(''_id'', [Expose, IsMongoId]),
      (''parentId'', [Expose, IsString False, IsOptional]),
      (''name'', [Expose, IsString False]),
      (''description'', [Expose, IsString False, IsOptional])]"
| "members QuestionRule =
     [(''name'', [Expose, IsString False, IsEnum RuleName False]),
      (''type'', [Expose, IsString False]),
      (''value'', [Expose, IsNumber])]"
| "members QuestionOption =
     [(''id'', [Expose, IsString False]),
      (''value'', [Expose, IsString False]),
      (''text'', [Expose, IsString False])]"
| "members Question =
     [(''masterId'', [Expose, IsString False, IsOptional]),
      (''parentId'', [Expose, IsMongoId, IsOptional]),
      (''traits'',
        [Expose, Type (\<lambda>object. Inr (TClass Trait)), ValidateNested True, IsArray, IsOptional]),
      (''rules'',
        [Expose, Type (\<lambda>object. Inr (TClass QuestionRule)), ValidateNested True, IsArray,
         IsOptional]),
      (''options'',
        [Expose, Type (\<lambda>object. Inr (TClass QuestionOption)), ValidateNested True, IsArray,
         IsOptional]),
      (''version'', [Expose, IsNumber, IsOptional]),
      (''language'', [Expose, IsString False, IsOptional])]"
| "members Trigger = [(''action'', [Expose, IsString False])]"
| "members Style = [(''buttonType'', [Expose, IsString False, IsEnum ButtonType False])]"
| "members ButtonGroupOption =
     [(''triggers'',
        [Expose, Type (\<lambda>object. Inr (TClass Trigger)), ValidateNested True, IsArray]),
      (''style'',
        [Expose, Type (\<lambda>object. Inr (TClass Style)), ValidateNested False, IsDefined])]"
| "members ButtonGroupQuestion =
     [(''options'',
        [Expose, Type (\<lambda>object. Inr (TClass ButtonGroupOption)), ValidateNested True,
         IsArray])]"
| "members Answer =
     [(''_id'', [Expose, IsString False, IsNotEmpty]),
      (''question'',
        [Expose, Type (\<lambda>object. map_sum id TClass (Answer_question_type object)), IsDefined,
         ValidateNested False]),
      (''value'', [Expose, IsString False, IsNotEmpty]),
      (''text'', [Expose, IsString False, IsNotEmpty])]"
| "members Message =
     [(''id'', [Expose, IsString False]),
      (''sender'', [Expose, IsEnum MessageSender False]),
      (''label'', [Expose, IsString False, IsOptional]),
      (''data'',
        [Expose, Type (\<lambda>object. map_sum id TClass (Message_data_type object)), IsDefined,
         ValidateNested False]),
      (''userAgent'', [Expose, IsString False, IsOptional]),
      (''timeTaken'', [Expose, IsNumber, IsOptional]),
      (''time'', [Expose, Type (\<lambda>object. Inr TDate), IsDate, IsOptional])]"
| "members Assessment =
     [(''chatLogs'',
        [Expose, Type (\<lambda>object. Inr (TClass Message)), IsArray, ValidateNested True,
         IsOptional])]"

text \<open>
  The base classes of a class, the nearest first. No class of the source has more than
  two.
\<close>

definition ancestors :: "cls \<Rightarrow> cls list" where
  "ancestors c =
     (case extends c of
        None \<Rightarrow> []
      | Some p \<Rightarrow> p # (case extends p of None \<Rightarrow> [] | Some q \<Rightarrow> [q]))"

section \<open>The transform stage\<close>

text \<open>
  \<^verbatim>\<open>plainToInstance\<close> of class-transformer is not part of the repository; it is modelled
  here as its executor runs under the options that \<^verbatim>\<open>parsePlainObject\<close> fixes:
  \<^verbatim>\<open>excludeExtraneousValues\<close> (the keys copied to an instance are the exposed fields of
  its class and of the base classes) and \<^verbatim>\<open>exposeUnsetFields\<close> (a field the raw node lacks
  is set, to \<^verbatim>\<open>undefined\<close>).
\<close>

fun is_Expose :: "decorator \<Rightarrow> bool" where
  "is_Expose Expose = True"
| "is_Expose d = False"

fun type_function :: "decorator list \<Rightarrow> (jsval \<Rightarrow> js_error + ttype) option" where
  "type_function [] = None"
| "type_function (Type f # ds) = Some f"
| "type_function (d # ds) = type_function ds"

definition exposed :: "cls \<Rightarrow> string list" where
  "exposed c = map fst (filter (\<lambda>(k, ds). list_ex is_Expose ds) (members c))"

text \<open>The keys of an instance: the base classes' exposed fields, then the class's own,
  each key once, at its first place.\<close>

definition getKeys :: "cls \<Rightarrow> string list" where
  "getKeys target =
     rev (remdups (rev (concat (map exposed (ancestors target)) @ exposed target)))"

text \<open>The type function of a field: the class's own declaration first, then the base
  classes', the nearest first.\<close>

fun first_some :: "('a \<Rightarrow> 'b option) \<Rightarrow> 'a list \<Rightarrow> 'b option" where
  "first_some f [] = None"
| "first_some f (x # xs) = (case f x of Some y \<Rightarrow> Some y | None \<Rightarrow> first_some f xs)"

definition findTypeMetadata :: "cls \<Rightarrow> string \<Rightarrow> (jsval \<Rightarrow> js_error + ttype) option" where
  "findTypeMetadata target propertyName =
     first_some
       (\<lambda>c. case map_of (members c) propertyName of
              None \<Rightarrow> None
            | Some ds \<Rightarrow> type_function ds)
       (target # ancestors target)"

text \<open>The type of the field \<open>propertyName\<close> of a \<open>target\<close> read from the raw node \<open>object\<close>:
  the type function runs on the raw node, and what it throws leaves the transform.\<close>

definition field_type :: "cls \<Rightarrow> string \<Rightarrow> jsval \<Rightarrow> js_error + ttype option" where
  "field_type target propertyName object =
     (case findTypeMetadata target propertyName of
        None \<Rightarrow> Inr None
      | Some f \<Rightarrow> map_sum id Some (f object))"

text \<open>A loop over a list that the first exception leaves.\<close>

fun traverse :: "('a \<Rightarrow> 'e + 'b) \<Rightarrow> 'a list \<Rightarrow> 'e + 'b list" where
  "traverse f [] = Inr []"
| "traverse f (x # xs) =
     (case f x of
        Inl e \<Rightarrow> Inl e
      | Inr y \<Rightarrow> (case traverse f xs of Inl e \<Rightarrow> Inl e | Inr ys \<Rightarrow> Inr (y # ys)))"

lemma traverse_cong [fundef_cong]:
  "xs = ys \<Longrightarrow> (\<And>x. x \<in> set ys \<Longrightarrow> f x = g x) \<Longrightarrow> traverse f xs = traverse g ys"
  by (induction ys arbitrary: xs) (auto split: sum.splits)

text \<open>
  The members of \<^verbatim>\<open>Object.prototype\<close>, each with the \<^verbatim>\<open>length\<close> it has as a function
  (\<^verbatim>\<open>__proto__\<close> is no function and has none). A plain object, an instance and a map
  written as \<^verbatim>\<open>{}\<close> inherit them: reading one of these names from an object that has no
  own entry for it gives the member. The executor of the transform skips a key of a plain
  object that names one of them.
\<close>

definition Object_prototype :: "(string \<times> nat option) list" where
  "Object_prototype =
     [(''constructor'', Some 1), (''__proto__'', None), (''__defineGetter__'', Some 2),
      (''__defineSetter__'', Some 2), (''hasOwnProperty'', Some 1),
      (''__lookupGetter__'', Some 1), (''__lookupSetter__'', Some 1),
      (''isPrototypeOf'', Some 1), (''propertyIsEnumerable'', Some 1), (''toString'', Some 0),
      (''valueOf'', Some 0), (''toLocaleString'', Some 0)]"

text \<open>
  \<^verbatim>\<open>new Date(value)\<close> on an object first asks the object for a primitive: \<^verbatim>\<open>valueOf\<close>
  (inherited, it returns the object) and then \<^verbatim>\<open>toString\<close>. An own entry \<^verbatim>\<open>toString\<close> of a
  raw object is data and cannot be called, no primitive is found, and the constructor
  throws a \<^verbatim>\<open>TypeError\<close>. On every other value the constructor returns a Date, with
  the time value \<open>toTime\<close> gives (\<open>None\<close> for \<^verbatim>\<open>NaN\<close>). \<open>toTime\<close> belongs to the host
  (\<^verbatim>\<open>Date.parse\<close> accepts formats of the host's own choice) and is a parameter.
\<close>

definition new_Date :: "(jsval \<Rightarrow> int option) \<Rightarrow> jsval \<Rightarrow> js_error + jsval" where
  "new_Date toTime v =
     (case v of
        JObj c kvs \<Rightarrow>
          if ''toString'' \<in> set (map fst kvs)
          then Inl (TypeError ''Cannot convert object to primitive value'')
          else Inr (JDate (toTime v))
      | _ \<Rightarrow> Inr (JDate (toTime v)))"

lemma size_own: "size (own kvs k) < Suc (size_list (size_prod (\<lambda>x. 0) size) kvs)"
proof (induction kvs)
  case Nil
  then show ?case by (simp add: own_def)
next
  case (Cons kv kvs)
  then show ?case by (cases kv) (auto simp: own_def split: option.splits)
qed

text \<open>
  \<^verbatim>\<open>TransformOperationExecutor.transform\<close> from plain to class, on a value and the type
  wanted for it (\<open>None\<close> when the field has no \<^verbatim>\<open>@Type\<close>). The branches in the executor's
  order: an array is transformed element by element with the same type; for the type
  \<^verbatim>\<open>Date\<close>, \<^verbatim>\<open>null\<close> and \<^verbatim>\<open>undefined\<close> stay and every other value goes through
  \<^verbatim>\<open>new Date(value)\<close>; an object becomes a new instance of the wanted class (of its own
  constructor when no type is wanted) with the keys of that class, each read from the
  raw node and transformed with the type of its field; a plain object with no type is
  copied key by key; every other value is returned as it is.
\<close>

function transform :: "(jsval \<Rightarrow> int option) \<Rightarrow> ttype option \<Rightarrow> jsval \<Rightarrow> js_error + jsval" where
  "transform toTime targetType (JArr xs) =
     (case traverse (transform toTime targetType) xs of
        Inl e \<Rightarrow> Inl e
      | Inr ys \<Rightarrow> Inr (JArr ys))"
| "transform toTime targetType (JDate d) = Inr (JDate d)"
| "transform toTime targetType (JObj c kvs) =
     (if targetType = Some TDate then new_Date toTime (JObj c kvs)
      else
        case (case targetType of Some (TClass t) \<Rightarrow> Some t | _ \<Rightarrow> c) of
          Some t \<Rightarrow>
            (case
               traverse
                 (\<lambda>key.
                    case field_type t key (JObj c kvs) of
                      Inl e \<Rightarrow> Inl e
                    | Inr type \<Rightarrow>
                        (case transform toTime type (own kvs key) of
                           Inl e \<Rightarrow> Inl e
                         | Inr finalValue \<Rightarrow> Inr (key, finalValue)))
                 (getKeys t)
             of
               Inl e \<Rightarrow> Inl e
             | Inr newValue \<Rightarrow> Inr (JObj (Some t) newValue))
        | None \<Rightarrow>
            (case
               traverse
                 (\<lambda>key.
                    case transform toTime None (own kvs key) of
                      Inl e \<Rightarrow> Inl e
                    | Inr finalValue \<Rightarrow> Inr (key, finalValue))
                 (filter (\<lambda>key. key \<notin> set (map fst Object_prototype)) (map fst kvs))
             of
               Inl e \<Rightarrow> Inl e
             | Inr newValue \<Rightarrow> Inr (JObj None newValue)))"
| "transform toTime targetType JUndefined = Inr JUndefined"
| "transform toTime targetType JNull = Inr JNull"
| "transform toTime targetType (JBool b) =
     (if targetType = Some TDate then new_Date toTime (JBool b) else Inr (JBool b))"
| "transform toTime targetType (JNum n) =
     (if targetType = Some TDate then new_Date toTime (JNum n) else Inr (JNum n))"
| "transform toTime targetType (JStr s) =
     (if targetType = Some TDate then new_Date toTime (JStr s) else Inr (JStr s))"
  by pat_completeness auto
termination
proof (relation "measure (\<lambda>(toTime, targetType, v). size v)", goal_cases)
  case 1
  show ?case by simp
next
  case (2 toTime targetType xs x)
  then show ?case by (simp add: size_list_estimation' less_Suc_eq_le)
next
  case 3
  show ?case by (simp add: size_own)
next
  case 4
  show ?case by (simp add: size_own)
qed

definition plainToInstance :: "(jsval \<Rightarrow> int option) \<Rightarrow> cls \<Rightarrow> jsval \<Rightarrow> js_error + jsval" where
  "plainToInstance toTime cls plain = transform toTime (Some (TClass cls)) plain"

section \<open>The validation stage\<close>

text \<open>
  \<^verbatim>\<open>validate\<close> of class-validator is not part of the repository either; it is modelled as
  its executor runs on the decorators above. An error of the library names one property
  of the object it was found on, the constraints that property broke, and under
  \<open>children\<close> the errors found inside the property's value.
\<close>

datatype ValidationError =
  ValidationError (property: "string option") (constraints: "string list")
    (children: "ValidationError list")

record ValidatorOptions =
  whitelist :: bool
  forbidNonWhitelisted :: bool

datatype ValidationTypes = CUSTOM_VALIDATION | NESTED_VALIDATION | CONDITIONAL_VALIDATION | IS_DEFINED

fun metadata_type :: "decorator \<Rightarrow> ValidationTypes option" where
  "metadata_type Expose = None"
| "metadata_type (Type f) = None"
| "metadata_type IsOptional = Some CONDITIONAL_VALIDATION"
| "metadata_type IsDefined = Some IS_DEFINED"
| "metadata_type (ValidateNested each) = Some NESTED_VALIDATION"
| "metadata_type d = Some CUSTOM_VALIDATION"

text \<open>
  The validation metadata a class registers itself: field by field in the order of the
  source, the decorators of one field from the bottom up, as they are applied.
\<close>

definition own_metadatas :: "cls \<Rightarrow> (string \<times> decorator) list" where
  "own_metadatas c =
     concat
       (map (\<lambda>(k, ds). map (Pair k) (rev (filter (\<lambda>d. metadata_type d \<noteq> None) ds)))
          (members c))"

text \<open>The classes in the order the source declares them.\<close>

definition declared :: "cls list" where
  "declared =
     [BaseElement, Hint, QuestionContent, Trait, QuestionRule, QuestionOption, Question,
      Trigger, Style, ButtonGroupOption, ButtonGroupQuestion, Answer, Message, Assessment]"

text \<open>
  The metadata of a class: its own, then what the base classes registered, without the
  inherited entries that the class overrides (an own entry for the same property with
  the same validation type).
\<close>

definition getTargetValidationMetadatas :: "cls \<Rightarrow> (string \<times> decorator) list" where
  "getTargetValidationMetadatas c =
     (let originalMetadatas = own_metadatas c;
          inheritedMetadatas =
            concat (map own_metadatas (filter (\<lambda>a. a \<in> set (ancestors c)) declared))
      in originalMetadatas @
         filter
           (\<lambda>(k, d).
              \<not> list_ex (\<lambda>(k', d'). k' = k \<and> metadata_type d' = metadata_type d)
                  originalMetadatas)
           inheritedMetadatas)"

definition groupByPropertyName :: "(string \<times> decorator) list \<Rightarrow> (string \<times> decorator list) list" where
  "groupByPropertyName metadata =
     map (\<lambda>k. (k, map snd (filter (\<lambda>(k', d). k' = k) metadata)))
       (rev (remdups (rev (map fst metadata))))"

subsection \<open>The constraints\<close>

definition hexdigits :: "string \<Rightarrow> bool" where
  "hexdigits s = (s \<noteq> [] \<and> list_all (\<lambda>c. c \<in> set ''0123456789abcdefABCDEF'') s)"

text \<open>The pattern \<^verbatim>\<open>/^(0x|0h)?[0-9A-F]+$/i\<close> of validator.js.\<close>

definition isHexadecimal :: "string \<Rightarrow> bool" where
  "isHexadecimal s =
     (hexdigits s \<or>
      (case s of
         a # b # rest \<Rightarrow> a = CHR ''0'' \<and> b \<in> set ''xXhH'' \<and> hexdigits rest
       | _ \<Rightarrow> False))"

definition isMongoId :: "string \<Rightarrow> bool" where
  "isMongoId s = (isHexadecimal s \<and> length s = 24)"

text \<open>What each constraint asks of one value.\<close>

fun validates :: "decorator \<Rightarrow> jsval \<Rightarrow> bool" where
  "validates (IsString each) v = (case v of JStr s \<Rightarrow> True | _ \<Rightarrow> False)"
| "validates (IsEnum entity each) v = (case v of JStr s \<Rightarrow> s \<in> set entity | _ \<Rightarrow> False)"
| "validates IsNumber v = (case v of JNum (Finite r) \<Rightarrow> True | _ \<Rightarrow> False)"
| "validates IsDate v = (case v of JDate (Some t) \<Rightarrow> True | _ \<Rightarrow> False)"
| "validates IsArray v = (case v of JArr xs \<Rightarrow> True | _ \<Rightarrow> False)"
| "validates IsMongoId v = (case v of JStr s \<Rightarrow> isMongoId s | _ \<Rightarrow> False)"
| "validates IsNotEmpty v = (v \<noteq> JStr [] \<and> v \<noteq> JNull \<and> v \<noteq> JUndefined)"
| "validates IsDefined v = (v \<noteq> JUndefined \<and> v \<noteq> JNull)"
| "validates d v = True"

fun each :: "decorator \<Rightarrow> bool" where
  "each (IsString e) = e"
| "each (IsEnum entity e) = e"
| "each (ValidateNested e) = e"
| "each d = False"

fun constraint_name :: "decorator \<Rightarrow> string" where
  "constraint_name (IsString e) = ''isString''"
| "constraint_name (IsEnum entity e) = ''isEnum''"
| "constraint_name IsNumber = ''isNumber''"
| "constraint_name IsDate = ''isDate''"
| "constraint_name IsArray = ''isArray''"
| "constraint_name IsMongoId = ''isMongoId''"
| "constraint_name IsNotEmpty = ''isNotEmpty''"
| "constraint_name IsDefined = ''isDefined''"
| "constraint_name (ValidateNested e) = ''nestedValidation''"
| "constraint_name IsOptional = ''conditionalValidation''"
| "constraint_name d = []"

text \<open>With \<^verbatim>\<open>each\<close>, a constraint is asked of every element of an array, and of the
  value itself when that is no array.\<close>

definition violated :: "decorator \<Rightarrow> jsval \<Rightarrow> bool" where
  "violated d v =
     (case v of
        JArr xs \<Rightarrow> if each d then \<not> list_all (validates d) xs else \<not> validates d v
      | _ \<Rightarrow> \<not> validates d v)"

definition customValidations :: "jsval \<Rightarrow> decorator list \<Rightarrow> string list" where
  "customValidations v metadatas = map constraint_name (filter (\<lambda>d. violated d v) metadatas)"

definition of_type :: "ValidationTypes \<Rightarrow> decorator list \<Rightarrow> decorator list" where
  "of_type t metadatas = filter (\<lambda>d. metadata_type d = Some t) metadatas"

text \<open>
  \<^verbatim>\<open>performValidations\<close> on one property: its error starts empty; \<^verbatim>\<open>@IsOptional\<close> stops
  there when the value is \<^verbatim>\<open>null\<close> or \<^verbatim>\<open>undefined\<close>; otherwise the error collects the
  constraints the value breaks (\<^verbatim>\<open>@IsDefined\<close> first) and, for \<^verbatim>\<open>@ValidateNested\<close>, what
  \<open>nested\<close> finds in the value. No property of the schema has two \<^verbatim>\<open>@ValidateNested\<close>.
\<close>

definition performValidations ::
  "(jsval \<Rightarrow> string list \<times> ValidationError list) \<Rightarrow> jsval \<Rightarrow> string \<Rightarrow> decorator list
     \<Rightarrow> ValidationError" where
  "performValidations nested v propertyName metadatas =
     (if \<not> list_all (\<lambda>d. v \<noteq> JNull \<and> v \<noteq> JUndefined) (of_type CONDITIONAL_VALIDATION metadatas)
      then ValidationError (Some propertyName) [] []
      else
        case (if of_type NESTED_VALIDATION metadatas = [] then ([], []) else nested v) of
          (cs, ch) \<Rightarrow>
            ValidationError (Some propertyName)
              (customValidations v (of_type IS_DEFINED metadatas) @
               customValidations v (of_type CUSTOM_VALIDATION metadatas) @ cs)
              ch)"

lemma performValidations_cong [fundef_cong]:
  "v = v' \<Longrightarrow> propertyName = propertyName' \<Longrightarrow> metadatas = metadatas' \<Longrightarrow>
   nested v' = nested' v' \<Longrightarrow>
   performValidations nested v propertyName metadatas =
   performValidations nested' v' propertyName' metadatas'"
  by (simp add: performValidations_def)

text \<open>The decimal text of an array index.\<close>

fun decimal :: "nat \<Rightarrow> string" where
  "decimal n =
     (if n < 10 then [char_of (48 + n)] else decimal (n div 10) @ [char_of (48 + n mod 10)])"

declare decimal.simps [simp del]

text \<open>
  An object with no metadata (a plain object, a Date) is an unknown value: the executor
  reports that, on no property, and looks no further (\<^verbatim>\<open>forbidUnknownValues\<close>, which the
  source leaves at the library's default).
\<close>

definition unknownValue :: "ValidationError list" where
  "unknownValue = [ValidationError None [''unknownValue''] []]"

text \<open>
  \<^verbatim>\<open>whitelist\<close> reads \<^verbatim>\<open>groupedMetadatas[propertyName]\<close> for every own key of the object
  and lets the key pass when what it reads is truthy and has a \<^verbatim>\<open>length\<close> other than 0.
  The grouped metadata is a map written as \<^verbatim>\<open>{}\<close>: for a key it has no group for, the
  read gives the member of \<^verbatim>\<open>Object.prototype\<close> of that name, if there is one.
\<close>

definition allowed :: "(string \<times> decorator list) list \<Rightarrow> string \<Rightarrow> bool" where
  "allowed groupedMetadatas propertyName =
     (case map_of groupedMetadatas propertyName of
        Some metadatas \<Rightarrow> length metadatas \<noteq> 0
      | None \<Rightarrow>
          (case map_of Object_prototype propertyName of
             None \<Rightarrow> False
           | Some None \<Rightarrow> True
           | Some (Some n) \<Rightarrow> n \<noteq> 0))"

text \<open>With \<^verbatim>\<open>forbidNonWhitelisted\<close>, every own key that does not pass is an error of its
  own. (Without it the library deletes these keys and reports nothing.)\<close>

definition whitelistValidation ::
  "ValidatorOptions \<Rightarrow> (string \<times> decorator list) list \<Rightarrow> string list \<Rightarrow> ValidationError list" where
  "whitelistValidation opts groupedMetadatas keys =
     (if whitelist opts \<and> forbidNonWhitelisted opts
      then map (\<lambda>k. ValidationError (Some k) [''whitelistValidation''] [])
             (filter (\<lambda>k. \<not> allowed groupedMetadatas k) keys)
      else [])"

text \<open>
  \<^verbatim>\<open>nestedValidations\<close> and \<^verbatim>\<open>execute\<close>. Inside a value under \<^verbatim>\<open>@ValidateNested\<close>: an
  array gives one child error per element, named by the index; an object is executed on
  its own and its errors are the children; \<^verbatim>\<open>undefined\<close> gives nothing; every other value
  breaks the constraint \<^verbatim>\<open>nestedValidation\<close>. \<^verbatim>\<open>execute\<close> checks the whitelist and then
  every property that has metadata, in the order of the metadata.
\<close>

function nestedValidations :: "ValidatorOptions \<Rightarrow> jsval \<Rightarrow> string list \<times> ValidationError list"
  and execute :: "ValidatorOptions \<Rightarrow> jsval \<Rightarrow> ValidationError list" where
  "nestedValidations opts JUndefined = ([], [])"
| "nestedValidations opts (JArr xs) =
     ([],
      map (\<lambda>(index, subValue).
             case nestedValidations opts subValue of
               (cs, ch) \<Rightarrow> ValidationError (Some (decimal index)) cs ch)
        (zip [0..<length xs] xs))"
| "nestedValidations opts (JObj c kvs) = ([], execute opts (JObj c kvs))"
| "nestedValidations opts (JDate d) = ([], execute opts (JDate d))"
| "nestedValidations opts JNull = ([''nestedValidation''], [])"
| "nestedValidations opts (JBool b) = ([''nestedValidation''], [])"
| "nestedValidations opts (JNum n) = ([''nestedValidation''], [])"
| "nestedValidations opts (JStr s) = ([''nestedValidation''], [])"
| "execute opts (JObj c kvs) =
     (case (case c of None \<Rightarrow> [] | Some t \<Rightarrow> getTargetValidationMetadatas t) of
        [] \<Rightarrow> unknownValue
      | m # ms \<Rightarrow>
          whitelistValidation opts (groupByPropertyName (m # ms)) (map fst kvs) @
          map (\<lambda>(propertyName, metadatas).
                 performValidations (nestedValidations opts) (own kvs propertyName)
                   propertyName metadatas)
            (groupByPropertyName (m # ms)))"
| "execute opts (JArr xs) = unknownValue"
| "execute opts (JDate d) = unknownValue"
| "execute opts JUndefined = unknownValue"
| "execute opts JNull = unknownValue"
| "execute opts (JBool b) = unknownValue"
| "execute opts (JNum n) = unknownValue"
| "execute opts (JStr s) = unknownValue"
  by pat_completeness auto
termination
proof (relation
    "measure (\<lambda>x. case x of Inl (opts, v) \<Rightarrow> 2 * size v + 1 | Inr (opts, v) \<Rightarrow> 2 * size v)",
    goal_cases)
  case 1
  show ?case by simp
next
  case (2 opts xs p index subValue)
  then have "subValue \<in> set xs"
    by (auto dest: set_zip_rightD)
  then have "size subValue \<le> size_list size xs"
    by (simp add: size_list_estimation')
  then show ?case
    by simp
next
  case 3
  show ?case by simp
next
  case 4
  show ?case by simp
next
  case 5
  have "size (own kvs k) < size (JObj c kvs)" for kvs k c
    by (simp add: size_own)
  then show ?case
    by (simp add: Suc_le_eq [symmetric] size_own less_Suc_eq_le)
qed

text \<open>\<^verbatim>\<open>stripEmptyErrors\<close>: an error with no constraint and, after stripping them, no
  child is dropped.\<close>

definition kept :: "ValidationError \<Rightarrow> bool" where
  "kept e = (\<not> (constraints e = [] \<and> children e = []))"

fun strip :: "ValidationError \<Rightarrow> ValidationError" where
  "strip (ValidationError p cs ch) = ValidationError p cs (filter kept (map strip ch))"

definition stripEmptyErrors :: "ValidationError list \<Rightarrow> ValidationError list" where
  "stripEmptyErrors errors = filter kept (map strip errors)"

definition validate :: "ValidatorOptions \<Rightarrow> jsval \<Rightarrow> ValidationError list" where
  "validate opts object = stripEmptyErrors (execute opts object)"

section \<open>The functions of the source\<close>

text \<open>
  What a call leaves behind besides its result: the lines it writes with
  \<^verbatim>\<open>console.error\<close>, each the text of the first argument and the value handed to
  \<^verbatim>\<open>JSON.stringify\<close> for the second. The result is the value returned or the error thrown.
\<close>

datatype stringified = OfString string | OfErrors "ValidationError list"

datatype console_line = ConsoleError string stringified

type_synonym 'a outcome = "console_line list \<times> (js_error + 'a)"

text \<open>\<^verbatim>\<open>parsePlainObject\<close>, lines 32 to 59, with \<^verbatim>\<open>options = {}\<close>.\<close>

definition parsePlainObject :: "(jsval \<Rightarrow> int option) \<Rightarrow> cls \<Rightarrow> jsval \<Rightarrow> jsval outcome" where
  "parsePlainObject toTime type plainObject =
     (case plainToInstance toTime type plainObject of
        Inl error \<Rightarrow>
          ([ConsoleError (''Parsing object to '' @ name type @ '' failed:'')
              (OfString (message error))],
           Inl (Error (message error)))
      | Inr instance \<Rightarrow> ([], Inr instance))"

text \<open>The text an array of property names takes inside a template string: the names
  joined by commas, \<^verbatim>\<open>undefined\<close> as the empty text.\<close>

fun join :: "string list \<Rightarrow> string" where
  "join [] = []"
| "join [x] = x"
| "join (x # y # ys) = x @ '','' @ join (y # ys)"

definition props_text :: "string option list \<Rightarrow> string" where
  "props_text props = join (map (\<lambda>p. case p of None \<Rightarrow> [] | Some k \<Rightarrow> k) props)"

text \<open>\<^verbatim>\<open>validateClassInstance\<close>, lines 61 to 90, with \<^verbatim>\<open>options = {}\<close>.\<close>

definition validatorOptions :: ValidatorOptions where
  "validatorOptions = \<lparr>whitelist = True, forbidNonWhitelisted = True\<rparr>"

definition validateClassInstance :: "jsval \<Rightarrow> cls \<Rightarrow> string \<Rightarrow> jsval outcome" where
  "validateClassInstance instance type errorMsgTitle =
     (let errors = validate validatorOptions instance
      in if length errors > 0
         then ([ConsoleError (''Validating '' @ name type @ '' failed:'') (OfErrors errors)],
               Inl (Error (errorMsgTitle @ '': '' @ props_text (map property errors))))
         else ([], Inr instance))"

text \<open>\<^verbatim>\<open>Assessment.validate\<close>, lines 389 to 396.\<close>

definition Assessment_title :: string where
  "Assessment_title = ''The following field values do not meet constraints in Assessment''"

definition Assessment_validate :: "jsval \<Rightarrow> jsval outcome" where
  "Assessment_validate this = validateClassInstance this Assessment Assessment_title"

text \<open>
  The call \<^verbatim>\<open>entity.validate()\<close>: the method of an \<open>Assessment\<close> instance. On every other
  value the call itself throws (an array of instances has no such method).
\<close>

fun call_validate :: "jsval \<Rightarrow> jsval outcome" where
  "call_validate (JObj (Some Assessment) kvs) = Assessment_validate (JObj (Some Assessment) kvs)"
| "call_validate JNull = ([], Inl (TypeError ''Cannot read properties of null (reading 'validate')''))"
| "call_validate JUndefined =
     ([], Inl (TypeError ''Cannot read properties of undefined (reading 'validate')''))"
| "call_validate v = ([], Inl (TypeError ''entity.validate is not a function''))"

text \<open>\<^verbatim>\<open>Assessment.fromObject\<close>, lines 380 to 387.\<close>

definition Assessment_fromObject :: "(jsval \<Rightarrow> int option) \<Rightarrow> jsval \<Rightarrow> jsval outcome" where
  "Assessment_fromObject toTime obj =
     (case parsePlainObject toTime Assessment obj of
        (out, Inl e) \<Rightarrow> (out, Inl e)
      | (out, Inr entity) \<Rightarrow>
          (case call_validate entity of
             (out', Inl e) \<Rightarrow> (out @ out', Inl e)
           | (out', Inr u) \<Rightarrow> (out @ out', Inr entity)))"

section \<open>The sample of the source\<close>

text \<open>The three messages handed to \<^verbatim>\<open>Assessment.fromObject\<close> at lines 399 to 480.\<close>

definition sample_hint :: jsval where
  "sample_hint =
     JObj None
       [(''data'',
          JObj None
            [(''options'',
               JArr
                 [JObj None
                    [(''next'', JStr ''5f77dd133075f3b845b19c02''),
                     (''id'', JStr ''0''),
                     (''text'', JStr []),
                     (''value'', JStr ''0'')]]),
             (''masterId'', JStr ''greeting''),
             (''types'', JArr [JStr ''HINT'']),
             (''_id'', JStr ''5f77dd133075f3b845b19c01''),
             (''contents'',
               JArr
                 [JObj None
                    [(''value'',
                       JStr ''Hey Tony, congratulations on your new role with Woolworths, Australia's #1 trusted brand!''),
                     (''types'', JArr [JStr ''TEXT''])]])]),
        (''sender'', JStr ''AGENT''),
        (''id'', JStr ''bc12520c-9e9c-4ac0-971e-528d2dcafb2a'')]"

definition sample_text :: string where
  "sample_text = ''I have 10 years of experience in personal finance management, and I have assisted 45 repeat clients in increasing their capital by an average of 15% every year. As a financial analyst, I utilized visual growth charts to show my clients how each saving plan option can impact their goals.''"

definition sample_answer :: jsval where
  "sample_answer =
     JObj None
       [(''timeTaken'', JNum (Finite 54321)),
        (''userAgent'',
          JStr ''Mozilla/5.0 (Windows NT 6.1; Win64; x64; rv:47.0) Gecko/20100101 Firefox/47.0''),
        (''id'', JStr ''db6489af-636f-4f05-a642-96c98fbcb36c''),
        (''data'',
          JObj None
            [(''_id'', JStr ''6021f9ebb02141003c057051''),
             (''text'', JStr sample_text),
             (''question'',
               JObj None
                 [(''usageWhitelist'', JArr [JStr ''GENERAL_PY'']),
                  (''masterId'', JStr ''previous.work.exp''),
                  (''types'', JArr [JStr ''BUTTON_GROUP_QUESTION'']),
                  (''_id'', JStr ''5f7d0d27b89cf6d0ce033a25''),
                  (''contents'',
                    JArr
                      [JObj None
                         [(''value'', JStr ''Can you please describe your last work experience?''),
                          (''types'', JArr [JStr ''TEXT''])]]),
                  (''version'', JNum (Finite 1))]),
             (''value'', JStr sample_text)]),
        (''sender'', JStr ''CANDIDATE'')]"

definition sample_question :: jsval where
  "sample_question =
     JObj None
       [(''data'',
          JObj None
            [(''_id'', JStr ''5f77dd133075f3b845b19d01''),
             (''masterId'', JStr ''5f77dd133075f3b8450bc2a3''),
             (''types'', JArr [JStr ''MCQ'']),
             (''contents'',
               JArr
                 [JObj None
                    [(''value'', JStr ''Are you hard working''),
                     (''types'', JArr [JStr ''TEXT''])]]),
             (''options'',
               JArr
                 [JObj None
                    [(''id'', JStr ''1''), (''text'', JStr ''Yes''), (''value'', JStr ''1'')],
                  JObj None
                    [(''id'', JStr ''2''), (''text'', JStr ''No''), (''value'', JStr ''2'')]]),
             (''usageWhitelist'', JArr [JStr ''GENERAL_PY'', JStr ''SENSITIVE''])]),
        (''sender'', JStr ''AGENT''),
        (''id'', JStr ''25688f98-27a0-4641-a60f-98ea87825657'')]"

definition sample :: jsval where
  "sample = JObj None [(''chatLogs'', JArr [sample_hint, sample_answer, sample_question])]"

text \<open>The class an object was built with.\<close>

definition constructor :: "jsval \<Rightarrow> cls option" where
  "constructor v = (case v of JObj c kvs \<Rightarrow> c | _ \<Rightarrow> None)"

text \<open>A graph in which every instance has exactly the keys of its class.\<close>

fun declared_only :: "jsval \<Rightarrow> bool" where
  "declared_only (JObj c kvs) =
     ((case c of Some t \<Rightarrow> map fst kvs = getKeys t | None \<Rightarrow> True) \<and>
      list_all (\<lambda>(k, v). declared_only v) kvs)"
| "declared_only (JArr xs) = list_all declared_only xs"
| "declared_only v = True"

text \<open>
  A raw value without the keys the schema does not declare: of a node read as an object
  of class \<open>t\<close> the fields of \<open>t\<close> are left and no other key, and so on inside every field
  whose type function gives a class for the node (the elements of an array are read as
  the array is).
\<close>

lemma size_entry:
  "(k, v) \<in> set kvs \<Longrightarrow> size v < Suc (size_list (size_prod (\<lambda>x. 0) size) kvs)"
  by (induction kvs) auto

function prune :: "cls \<Rightarrow> jsval \<Rightarrow> jsval" where
  "prune t (JArr xs) = JArr (map (prune t) xs)"
| "prune t (JObj c kvs) =
     JObj c
       (map (\<lambda>(k, v).
               (k, case field_type t k (JObj c kvs) of
                     Inr (Some (TClass t')) \<Rightarrow> prune t' v
                   | _ \<Rightarrow> v))
          (filter (\<lambda>(k, v). k \<in> set (getKeys t)) kvs))"
| "prune t (JDate d) = JDate d"
| "prune t JUndefined = JUndefined"
| "prune t JNull = JNull"
| "prune t (JBool b) = JBool b"
| "prune t (JNum n) = JNum n"
| "prune t (JStr s) = JStr s"
  by pat_completeness auto
termination
proof (relation "measure (\<lambda>(t, v). size v)", goal_cases)
  case 1
  show ?case by simp
next
  case (2 t xs x)
  then show ?case by (simp add: size_list_estimation' less_Suc_eq_le)
next
  case 3
  then show ?case by (auto dest: size_entry)
qed

text \<open>
  A value in which every object is an instance of a class and has the fields of its
  class for keys, and no other key; what is under a field that has no \<^verbatim>\<open>@Type\<close> is not
  looked at.
\<close>

fun instances :: "jsval \<Rightarrow> bool" where
  "instances (JObj c kvs) =
     (case c of
        None \<Rightarrow> False
      | Some t \<Rightarrow>
          map fst kvs = getKeys t \<and>
          list_all
            (\<lambda>(k, v). case findTypeMetadata t k of None \<Rightarrow> True | Some f \<Rightarrow> instances v)
            kvs)"
| "instances (JArr xs) = list_all instances xs"
| "instances v = True"

section \<open>Inputs of the examples\<close>

text \<open>A host for the examples, none of which holds a date it could read: every time
  value is \<^verbatim>\<open>NaN\<close>.\<close>

definition Invalid_Date :: "jsval \<Rightarrow> int option" where
  "Invalid_Date v = None"

text \<open>One message from the agent whose payload has the number 5 for \<^verbatim>\<open>types\<close>.\<close>

definition number_types_message :: jsval where
  "number_types_message =
     JObj None
       [(''sender'', JStr ''AGENT''),
        (''data'', JObj None [(''types'', JNum (Finite 5))])]"

definition number_types :: jsval where
  "number_types = JObj None [(''chatLogs'', JArr [number_types_message])]"

text \<open>A typed graph with two violations: a sender outside the enumeration and an answer
  with an empty text.\<close>

definition two_violations :: jsval where
  "two_violations =
     JObj (Some Assessment)
       [(''chatLogs'',
          JArr
            [JObj (Some Message)
               [(''id'', JStr ''m1''),
                (''sender'', JStr ''UNKNOWN''),
                (''label'', JUndefined),
                (''data'',
                  JObj (Some Answer)
                    [(''_id'', JStr ''a1''),
                     (''question'',
                       JObj (Some Question)
                         [(''_id'', JStr ''5f77dd133075f3b845b19d01''),
                          (''types'', JArr [JStr ''MCQ'']),
                          (''contents'', JArr []),
                          (''masterId'', JUndefined),
                          (''parentId'', JUndefined),
                          (''traits'', JUndefined),
                          (''rules'', JUndefined),
                          (''options'', JUndefined),
                          (''version'', JUndefined),
                          (''language'', JUndefined)]),
                     (''value'', JStr ''yes''),
                     (''text'', JStr [])]),
                (''userAgent'', JUndefined),
                (''timeTaken'', JUndefined),
                (''time'', JUndefined)]])]"

text \<open>One message, valid but for the text \<^verbatim>\<open>not-a-date\<close> in \<^verbatim>\<open>time\<close>.\<close>

definition unreadable_message :: "(string \<times> jsval) list" where
  "unreadable_message =
     [(''id'', JStr ''m1''),
      (''sender'', JStr ''AGENT''),
      (''data'',
        JObj None
          [(''_id'', JStr ''5f77dd133075f3b845b19c01''),
           (''types'', JArr [JStr ''HINT'']),
           (''contents'', JArr [])]),
      (''time'', JStr ''not-a-date'')]"

definition unreadable_time :: jsval where
  "unreadable_time = JObj None [(''chatLogs'', JArr [JObj None unreadable_message])]"

text \<open>One message with that text in \<^verbatim>\<open>time\<close> and the number 5 for \<^verbatim>\<open>types\<close>.\<close>

definition unreadable_number_types :: "(string \<times> jsval) list" where
  "unreadable_number_types =
     [(''sender'', JStr ''AGENT''),
      (''data'', JObj None [(''types'', JNum (Finite 5))]),
      (''time'', JStr ''not-a-date'')]"

text \<open>A raw tree with a key outside the schema at the root, in a message, in its payload
  and in an option of the payload.\<close>

definition extra_keys :: jsval where
  "extra_keys =
     JObj None
       [(''version'', JNum (Finite 2)),
        (''chatLogs'',
          JArr
            [JObj None
               [(''id'', JStr ''m1''),
                (''sender'', JStr ''AGENT''),
                (''channel'', JStr ''web''),
                (''data'',
                  JObj None
                    [(''_id'', JStr ''5f77dd133075f3b845b19c01''),
                     (''types'', JArr [JStr ''MCQ'']),
                     (''contents'', JArr []),
                     (''usageWhitelist'', JArr [JStr ''GENERAL_PY'']),
                     (''options'',
                       JArr
                         [JObj None
                            [(''id'', JStr ''1''), (''text'', JStr ''Yes''),
                             (''value'', JStr ''1''), (''score'', JNum (Finite 1))]])])]])]"

text \<open>That tree without those keys, and the entity the transform makes of both.\<close>

definition no_extra_keys :: jsval where
  "no_extra_keys =
     JObj None
       [(''chatLogs'',
          JArr
            [JObj None
               [(''id'', JStr ''m1''),
                (''sender'', JStr ''AGENT''),
                (''data'',
                  JObj None
                    [(''_id'', JStr ''5f77dd133075f3b845b19c01''),
                     (''types'', JArr [JStr ''MCQ'']),
                     (''contents'', JArr []),
                     (''options'',
                       JArr
                         [JObj None
                            [(''id'', JStr ''1''), (''text'', JStr ''Yes''),
                             (''value'', JStr ''1'')]])])]])]"

definition extra_keys_entity :: jsval where
  "extra_keys_entity =
     JObj (Some Assessment)
       [(''chatLogs'',
          JArr
            [JObj (Some Message)
               [(''id'', JStr ''m1''), (''sender'', JStr ''AGENT''), (''label'', JUndefined),
                (''data'',
                  JObj (Some Question)
                    [(''_id'', JStr ''5f77dd133075f3b845b19c01''),
                     (''types'', JArr [JStr ''MCQ'']), (''contents'', JArr []),
                     (''masterId'', JUndefined), (''parentId'', JUndefined),
                     (''traits'', JUndefined), (''rules'', JUndefined),
                     (''options'',
                       JArr
                         [JObj (Some QuestionOption)
                            [(''id'', JStr ''1''), (''value'', JStr ''1''),
                             (''text'', JStr ''Yes'')]]),
                     (''version'', JUndefined), (''language'', JUndefined)]),
                (''userAgent'', JUndefined), (''timeTaken'', JUndefined),
                (''time'', JUndefined)]])]"


section \<open>Properties of the discriminators\<close>

lemma opt_includes_tags:
  "tags_of t = Some tags \<Longrightarrow>
     \<exists>r. opt_includes callee t x = Inr r \<and> truthy r = (JStr x \<in> set tags)"
  by (cases t) auto

text \<open>
  C1. For a raw message node, the variant of \<^verbatim>\<open>data\<close> follows the ordered precedence:
  a sender equal to \<^verbatim>\<open>"CANDIDATE"\<close> gives \<open>Answer\<close> whatever the payload holds; otherwise
  a \<^verbatim>\<open>types\<close> array with \<^verbatim>\<open>"HINT"\<close> gives \<open>Hint\<close>, also when the button-group tag is there
  too; otherwise one with \<^verbatim>\<open>"BUTTON_GROUP_QUESTION"\<close> gives \<open>ButtonGroupQuestion\<close>;
  otherwise (no such tag, or no \<^verbatim>\<open>types\<close> at all) the variant is \<open>Question\<close>.
\<close>

theorem Message_data_type_precedence:
  "(own kvs ''sender'' = JStr CANDIDATE \<longrightarrow> Message_data_type (JObj c kvs) = Inr Answer) \<and>
   (tags_of (opt_chain (own kvs ''data'') ''types'') = Some tags \<longrightarrow>
      Message_data_type (JObj c kvs) = Inr (payload_variant (own kvs ''sender'') tags))"
proof (intro conjI impI)
  assume "own kvs ''sender'' = JStr CANDIDATE"
  then show "Message_data_type (JObj c kvs) = Inr Answer"
    by (simp add: Message_data_type_def)
next
  assume t: "tags_of (opt_chain (own kvs ''data'') ''types'') = Some tags"
  obtain h where h: "opt_includes ''object?.data?.types?.includes''
        (opt_chain (own kvs ''data'') ''types'') HINT = Inr h"
    "truthy h = (JStr HINT \<in> set tags)"
    using opt_includes_tags [OF t] by blast
  obtain b where b: "opt_includes ''object?.data?.types?.includes''
        (opt_chain (own kvs ''data'') ''types'') BGQ = Inr b"
    "truthy b = (JStr BGQ \<in> set tags)"
    using opt_includes_tags [OF t] by blast
  show "Message_data_type (JObj c kvs) = Inr (payload_variant (own kvs ''sender'') tags)"
    using h b by (simp add: Message_data_type_def payload_variant_def)
qed

theorem Message_data_type_precedence_witness:
  "Message_data_type
     (JObj None
        [(''sender'', JStr ''AGENT''),
         (''data'', JObj None [(''types'', JArr [JStr BGQ, JStr HINT])])]) = Inr Hint \<and>
   Message_data_type
     (JObj None
        [(''sender'', JStr CANDIDATE),
         (''data'', JObj None [(''types'', JArr [JStr HINT])])]) = Inr Answer"
proof
  show "Message_data_type
     (JObj None
        [(''sender'', JStr ''AGENT''),
         (''data'', JObj None [(''types'', JArr [JStr BGQ, JStr HINT])])]) = Inr Hint"
    using Message_data_type_precedence
      [of "[(''sender'', JStr ''AGENT''),
            (''data'', JObj None [(''types'', JArr [JStr BGQ, JStr HINT])])]"
          None "[JStr BGQ, JStr HINT]"]
    by (simp add: own_def payload_variant_def)
next
  show "Message_data_type
     (JObj None
        [(''sender'', JStr CANDIDATE),
         (''data'', JObj None [(''types'', JArr [JStr HINT])])]) = Inr Answer"
    using Message_data_type_precedence
      [of "[(''sender'', JStr CANDIDATE),
            (''data'', JObj None [(''types'', JArr [JStr HINT])])]"
          None "[JStr HINT]"]
    by (simp add: own_def)
qed

text \<open>
  C5. For a raw answer node, the variant of \<^verbatim>\<open>question\<close> is \<open>ButtonGroupQuestion\<close> exactly
  when the question's \<^verbatim>\<open>types\<close> array holds \<^verbatim>\<open>"BUTTON_GROUP_QUESTION"\<close>, and \<open>Question\<close>
  otherwise. There is no hint branch: \<^verbatim>\<open>"HINT"\<close> without the button-group tag gives
  \<open>Question\<close>, where the resolver of \<^verbatim>\<open>Message.data\<close> gives \<open>Hint\<close>.
\<close>

theorem Answer_question_type_two_way:
  "tags_of (opt_chain (own kvs ''question'') ''types'') = Some tags \<longrightarrow>
     Answer_question_type (JObj c kvs) = Inr (question_variant tags) \<and>
     (JStr BGQ \<notin> set tags \<longrightarrow> Answer_question_type (JObj c kvs) = Inr Question)"
proof (intro impI)
  assume t: "tags_of (opt_chain (own kvs ''question'') ''types'') = Some tags"
  obtain b where b: "opt_includes ''object?.question?.types?.includes''
        (opt_chain (own kvs ''question'') ''types'') BGQ = Inr b"
    "truthy b = (JStr BGQ \<in> set tags)"
    using opt_includes_tags [OF t] by blast
  then show "Answer_question_type (JObj c kvs) = Inr (question_variant tags) \<and>
     (JStr BGQ \<notin> set tags \<longrightarrow> Answer_question_type (JObj c kvs) = Inr Question)"
    by (simp add: Answer_question_type_def question_variant_def)
qed

theorem Answer_question_type_two_way_witness:
  "Answer_question_type
     (JObj None [(''question'', JObj None [(''types'', JArr [JStr HINT])])]) = Inr Question \<and>
   Message_data_type
     (JObj None [(''data'', JObj None [(''types'', JArr [JStr HINT])])]) = Inr Hint \<and>
   Answer_question_type
     (JObj None [(''question'', JObj None [(''types'', JArr [JStr HINT, JStr BGQ])])]) =
     Inr ButtonGroupQuestion"
proof (intro conjI)
  show "Answer_question_type
     (JObj None [(''question'', JObj None [(''types'', JArr [JStr HINT])])]) = Inr Question"
    using Answer_question_type_two_way
      [of "[(''question'', JObj None [(''types'', JArr [JStr HINT])])]" "[JStr HINT]" None]
    by (simp add: own_def question_variant_def)
  show "Message_data_type
     (JObj None [(''data'', JObj None [(''types'', JArr [JStr HINT])])]) = Inr Hint"
    by (simp add: Message_data_type_def own_def)
  show "Answer_question_type
     (JObj None [(''question'', JObj None [(''types'', JArr [JStr HINT, JStr BGQ])])]) =
     Inr ButtonGroupQuestion"
    using Answer_question_type_two_way
      [of "[(''question'', JObj None [(''types'', JArr [JStr HINT, JStr BGQ])])]"
          "[JStr HINT, JStr BGQ]" None]
    by (simp add: own_def question_variant_def)
qed

text \<open>
  Where \<^verbatim>\<open>types\<close> is an array or absent, both resolvers return a variant: an absent
  \<^verbatim>\<open>sender\<close>, \<^verbatim>\<open>data\<close>, \<^verbatim>\<open>question\<close> or \<^verbatim>\<open>types\<close> counts as holding no tag. A \<^verbatim>\<open>types\<close>
  that is a text is searched as a text.
\<close>

lemma text_types_searched:
  "Message_data_type (JObj None [(''data'', JObj None [(''types'', JStr ''HINTS'')])]) = Inr Hint"
  by (simp add: Message_data_type_def own_def sublist_code)

lemma opt_includes_returns:
  "tags_of t \<noteq> None \<Longrightarrow> \<exists>r. opt_includes callee t x = Inr r"
  by (cases t) auto

lemma resolvers_return_on_arrays:
  assumes "tags_of (opt_chain (opt_chain object k) ''types'') \<noteq> None"
  shows "k = ''data'' \<Longrightarrow> \<exists>c. Message_data_type object = Inr c"
    and "k = ''question'' \<Longrightarrow> \<exists>c. Answer_question_type object = Inr c"
proof -
  have r: "\<exists>r. opt_includes callee (opt_chain (opt_chain object k) ''types'') x = Inr r"
    for callee x
    using opt_includes_returns [OF assms] by blast
  show "k = ''data'' \<Longrightarrow> \<exists>c. Message_data_type object = Inr c"
    using r [of "''object?.data?.types?.includes''" HINT]
      r [of "''object?.data?.types?.includes''" BGQ]
    by (auto simp: Message_data_type_def)
  show "k = ''question'' \<Longrightarrow> \<exists>c. Answer_question_type object = Inr c"
    using r [of "''object?.question?.types?.includes''" BGQ]
    by (auto simp: Answer_question_type_def)
qed

text \<open>
  C6. The resolvers are to return a variant on every shape of the raw node, also when
  \<^verbatim>\<open>types\<close> is present and no array. On a \<^verbatim>\<open>types\<close> that is the number 5 the optional chain
  does not stop (the value is not \<^verbatim>\<open>null\<close> or \<^verbatim>\<open>undefined\<close>), a number has no
  \<^verbatim>\<open>includes\<close>, and the call throws: both resolvers and \<^verbatim>\<open>isHint\<close> end in a
  \<^verbatim>\<open>TypeError\<close> and return no variant.
\<close>

theorem resolvers_throw_on_number_types:
  "Message_data_type number_types_message =
     Inl (TypeError (not_a_function ''object?.data?.types?.includes'')) \<and>
   Answer_question_type
     (JObj None [(''question'', JObj None [(''types'', JNum (Finite 5))])]) =
     Inl (TypeError (not_a_function ''object?.question?.types?.includes'')) \<and>
   isHint (JObj None [(''types'', JNum (Finite 5))]) =
     Inl (TypeError (not_a_function ''messageData?.types?.includes''))"
  by (simp add: Message_data_type_def Answer_question_type_def isHint_def own_def
      number_types_message_def)

section \<open>Properties of the pipeline\<close>

text \<open>A transformed object is an instance of the class wanted, with the keys of that class.\<close>

lemma traverse_keys:
  "traverse f ks = Inr ys \<Longrightarrow> (\<And>k y. f k = Inr y \<Longrightarrow> fst y = k) \<Longrightarrow> map fst ys = ks"
proof (induction ks arbitrary: ys)
  case Nil
  then show ?case by simp
next
  case (Cons k ks)
  from Cons.prems(1) obtain y ys' where
    y: "f k = Inr y" and ys': "traverse f ks = Inr ys'" and ys: "ys = y # ys'"
    by (auto split: sum.splits)
  from Cons.IH [OF ys' Cons.prems(2)] Cons.prems(2) [OF y] ys show ?case
    by simp
qed

lemma transform_class_object:
  assumes "transform toTime (Some (TClass t)) (JObj c kvs) = Inr r"
  shows "\<exists>vs. r = JObj (Some t) vs \<and> map fst vs = getKeys t"
proof -
  let ?f = "\<lambda>key.
      case field_type t key (JObj c kvs) of
        Inl e \<Rightarrow> Inl e
      | Inr type \<Rightarrow>
          (case transform toTime type (own kvs key) of
             Inl e \<Rightarrow> Inl e
           | Inr finalValue \<Rightarrow> Inr (key, finalValue))"
  from assms obtain vs where vs: "traverse ?f (getKeys t) = Inr vs" and r: "r = JObj (Some t) vs"
    by (auto split: sum.splits)
  have "map fst vs = getKeys t"
    by (rule traverse_keys [OF vs]) (auto split: sum.splits)
  with r show ?thesis by blast
qed

lemma getKeys_Assessment: "getKeys Assessment = [''chatLogs'']"
  by (simp add: getKeys_def exposed_def ancestors_def)

lemma plainToInstance_Assessment_object:
  assumes "plainToInstance toTime Assessment (JObj c kvs) = Inr entity"
  shows "\<exists>v. entity = JObj (Some Assessment) [(''chatLogs'', v)]"
proof -
  from assms obtain vs where "entity = JObj (Some Assessment) vs" "map fst vs = [''chatLogs'']"
    using transform_class_object [of toTime Assessment c kvs entity]
    by (auto simp: plainToInstance_def getKeys_Assessment)
  then show ?thesis
    by (cases vs) auto
qed

text \<open>A raw array is transformed to an array, on which there is no method to call.\<close>

lemma fromObject_on_array:
  "Assessment_fromObject toTime (JArr []) =
     ([], Inl (TypeError ''entity.validate is not a function''))"
  by (simp add: Assessment_fromObject_def parsePlainObject_def plainToInstance_def)

text \<open>
  C4 (as amended). Whenever the type coercion inside \<^verbatim>\<open>plainToInstance\<close> throws,
  \<^verbatim>\<open>parsePlainObject\<close> fails with a new \<^verbatim>\<open>Error\<close> whose message is the message of that
  failure and nothing else. The name of the target type goes to the \<^verbatim>\<open>console.error\<close>
  line only.
\<close>

theorem parsePlainObject_failure_message:
  "plainToInstance toTime type plainObject = Inl e \<longrightarrow>
     parsePlainObject toTime type plainObject =
       ([ConsoleError (''Parsing object to '' @ name type @ '' failed:'') (OfString (message e))],
        Inl (Error (message e)))"
  by (simp add: parsePlainObject_def)

lemma number_types_fails:
  "plainToInstance toTime Assessment number_types =
     Inl (TypeError (not_a_function ''object?.data?.types?.includes''))"
  by (simp add: plainToInstance_def number_types_def number_types_message_def getKeys_def
      exposed_def ancestors_def field_type_def findTypeMetadata_def own_def
      Message_data_type_def)

theorem parsePlainObject_failure_message_witness:
  "parsePlainObject Invalid_Date Assessment number_types =
     ([ConsoleError ''Parsing object to Assessment failed:''
         (OfString (not_a_function ''object?.data?.types?.includes''))],
      Inl (Error (not_a_function ''object?.data?.types?.includes'')))"
  using parsePlainObject_failure_message
    [of Invalid_Date Assessment number_types
        "TypeError (not_a_function ''object?.data?.types?.includes'')"]
  by (simp add: number_types_fails)

text \<open>
  C4 as stated fails: transforming to \<open>Assessment\<close> a message whose \<^verbatim>\<open>types\<close> is a number,
  the error thrown holds the failure's message and not the name \<^verbatim>\<open>Assessment\<close>.
\<close>

theorem parsePlainObject_type_name_counterexample:
  "snd (parsePlainObject Invalid_Date Assessment number_types) =
     Inl (Error ''object?.data?.types?.includes is not a function'') \<and>
   \<not> sublist (name Assessment) ''object?.data?.types?.includes is not a function''"
proof
  show "snd (parsePlainObject Invalid_Date Assessment number_types) =
     Inl (Error ''object?.data?.types?.includes is not a function'')"
    by (simp add: parsePlainObject_def number_types_fails not_a_function_def)
  show "\<not> sublist (name Assessment) ''object?.data?.types?.includes is not a function''"
    by code_simp
qed


text \<open>
  C7. \<^verbatim>\<open>Assessment.fromObject\<close> runs the transform first and the validation second. When
  the transform fails, its error is what the caller gets and the only console line is the
  transform's: the validation does not run. When the transform of a raw object returns,
  the entity is an \<open>Assessment\<close> instance, the validation runs on it, and the outcome is
  the validation's: the entity itself when no error is found, the validation's error
  otherwise.
\<close>

theorem fromObject_transform_then_validate:
  "(plainToInstance toTime Assessment obj = Inl e \<longrightarrow>
      Assessment_fromObject toTime obj =
        ([ConsoleError ''Parsing object to Assessment failed:'' (OfString (message e))],
         Inl (Error (message e)))) \<and>
   (plainToInstance toTime Assessment (JObj c kvs) = Inr entity \<longrightarrow>
      (\<exists>v. entity = JObj (Some Assessment) [(''chatLogs'', v)]) \<and>
      Assessment_fromObject toTime (JObj c kvs) =
        (case validate validatorOptions entity of
           [] \<Rightarrow> ([], Inr entity)
         | error # errors \<Rightarrow>
             ([ConsoleError ''Validating Assessment failed:'' (OfErrors (error # errors))],
              Inl (Error (Assessment_title @ '': '' @
                     props_text (map property (error # errors)))))))"
proof (intro conjI impI)
  assume "plainToInstance toTime Assessment obj = Inl e"
  then show "Assessment_fromObject toTime obj =
        ([ConsoleError ''Parsing object to Assessment failed:'' (OfString (message e))],
         Inl (Error (message e)))"
    by (simp add: Assessment_fromObject_def parsePlainObject_def)
next
  assume t: "plainToInstance toTime Assessment (JObj c kvs) = Inr entity"
  then show "\<exists>v. entity = JObj (Some Assessment) [(''chatLogs'', v)]"
    by (rule plainToInstance_Assessment_object)
next
  assume t: "plainToInstance toTime Assessment (JObj c kvs) = Inr entity"
  then obtain v where v: "entity = JObj (Some Assessment) [(''chatLogs'', v)]"
    using plainToInstance_Assessment_object by blast
  show "Assessment_fromObject toTime (JObj c kvs) =
        (case validate validatorOptions entity of
           [] \<Rightarrow> ([], Inr entity)
         | error # errors \<Rightarrow>
             ([ConsoleError ''Validating Assessment failed:'' (OfErrors (error # errors))],
              Inl (Error (Assessment_title @ '': '' @
                     props_text (map property (error # errors))))))"
    using t
    by (simp add: Assessment_fromObject_def parsePlainObject_def v Assessment_validate_def
        validateClassInstance_def Let_def split: list.splits)
qed


theorem fromObject_transform_then_validate_witness:
  "Assessment_fromObject Invalid_Date number_types =
     ([ConsoleError ''Parsing object to Assessment failed:''
         (OfString (not_a_function ''object?.data?.types?.includes''))],
      Inl (Error (not_a_function ''object?.data?.types?.includes''))) \<and>
   Assessment_fromObject Invalid_Date (JObj None []) =
     ([], Inr (JObj (Some Assessment) [(''chatLogs'', JUndefined)])) \<and>
   snd (Assessment_fromObject Invalid_Date (JObj None [(''chatLogs'', JStr ''x'')])) =
     Inl (Error (Assessment_title @ '': chatLogs''))"
proof (intro conjI)
  show "Assessment_fromObject Invalid_Date number_types =
     ([ConsoleError ''Parsing object to Assessment failed:''
         (OfString (not_a_function ''object?.data?.types?.includes''))],
      Inl (Error (not_a_function ''object?.data?.types?.includes'')))"
    using fromObject_transform_then_validate
      [of Invalid_Date number_types
          "TypeError (not_a_function ''object?.data?.types?.includes'')"]
    by (simp add: number_types_fails)
next
  have t: "plainToInstance Invalid_Date Assessment (JObj None []) =
      Inr (JObj (Some Assessment) [(''chatLogs'', JUndefined)])"
    by code_simp
  have v: "validate validatorOptions (JObj (Some Assessment) [(''chatLogs'', JUndefined)]) = []"
    by code_simp
  show "Assessment_fromObject Invalid_Date (JObj None []) =
     ([], Inr (JObj (Some Assessment) [(''chatLogs'', JUndefined)]))"
    using fromObject_transform_then_validate
      [of Invalid_Date _ _ None "[]" "JObj (Some Assessment) [(''chatLogs'', JUndefined)]"] t v
    by simp
next
  have t: "plainToInstance Invalid_Date Assessment (JObj None [(''chatLogs'', JStr ''x'')]) =
      Inr (JObj (Some Assessment) [(''chatLogs'', JStr ''x'')])"
    by code_simp
  have v: "validate validatorOptions (JObj (Some Assessment) [(''chatLogs'', JStr ''x'')]) =
      [ValidationError (Some ''chatLogs'') [''isArray'', ''nestedValidation''] []]"
    by code_simp
  show "snd (Assessment_fromObject Invalid_Date (JObj None [(''chatLogs'', JStr ''x'')])) =
     Inl (Error (Assessment_title @ '': chatLogs''))"
    using fromObject_transform_then_validate
      [of Invalid_Date _ _ None "[(''chatLogs'', JStr ''x'')]"
          "JObj (Some Assessment) [(''chatLogs'', JStr ''x'')]"] t v
    by (simp add: props_text_def)
qed

text \<open>
  C9. On the three-message sample of the source, \<^verbatim>\<open>Assessment.fromObject\<close> transforms and
  validates with no error and no console line; the result has three \<^verbatim>\<open>chatLogs\<close>, the
  first with a \<open>Hint\<close> as \<^verbatim>\<open>data\<close>, the second with an \<open>Answer\<close> whose \<^verbatim>\<open>question\<close> is a
  \<open>ButtonGroupQuestion\<close>, the third with a \<open>Question\<close> that has exactly two options, both
  \<open>QuestionOption\<close> instances.
\<close>

theorem sample_transforms_and_validates:
  "(case Assessment_fromObject toTime sample of
      (out, Inl e) \<Rightarrow> False
    | (out, Inr res) \<Rightarrow>
        out = [] \<and> validate validatorOptions res = [] \<and>
        (case get res ''chatLogs'' of
           JArr chatLogs \<Rightarrow>
             length chatLogs = 3 \<and>
             constructor (get (chatLogs ! 0) ''data'') = Some Hint \<and>
             constructor (get (chatLogs ! 1) ''data'') = Some Answer \<and>
             constructor (get (get (chatLogs ! 1) ''data'') ''question'') =
               Some ButtonGroupQuestion \<and>
             constructor (get (chatLogs ! 2) ''data'') = Some Question \<and>
             (case get (get (chatLogs ! 2) ''data'') ''options'' of
                JArr options \<Rightarrow>
                  length options = 2 \<and>
                  list_all (\<lambda>option. constructor option = Some QuestionOption) options
              | _ \<Rightarrow> False)
         | _ \<Rightarrow> False))"
  by code_simp


section \<open>Properties of the validation\<close>

text \<open>Every class of the schema has validation metadata, for exactly the fields the
  transform copies.\<close>

lemma metadata_nonempty: "getTargetValidationMetadatas c \<noteq> []"
  by (cases c)
    (simp_all add: getTargetValidationMetadatas_def own_metadatas_def ancestors_def declared_def)

lemma metadata_keys: "set (map fst (getTargetValidationMetadatas c)) = set (getKeys c)"
  by (cases c)
    (simp_all add: getTargetValidationMetadatas_def own_metadatas_def ancestors_def declared_def
      getKeys_def exposed_def insert_commute)

lemma groupByPropertyName_keys:
  "set (map fst (groupByPropertyName metadata)) = set (map fst metadata)"
  by (simp add: groupByPropertyName_def comp_def)

lemma execute_instance:
  "execute opts (JObj (Some c) kvs) =
     whitelistValidation opts (groupByPropertyName (getTargetValidationMetadatas c)) (map fst kvs) @
     map (\<lambda>(propertyName, metadatas).
            performValidations (nestedValidations opts) (own kvs propertyName)
              propertyName metadatas)
       (groupByPropertyName (getTargetValidationMetadatas c))"
  using metadata_nonempty [of c] by (cases "getTargetValidationMetadatas c") simp_all

lemma property_performValidations [simp]:
  "property (performValidations nested v propertyName metadatas) = Some propertyName"
  by (simp add: performValidations_def split: prod.splits)

lemma property_strip [simp]: "property (strip e) = property e"
  by (cases e) simp

lemma strip_constraints [simp]: "constraints (strip e) = constraints e"
  by (cases e) simp

text \<open>What \<^verbatim>\<open>whitelist\<close> lets pass: the fields of the class, and the names an empty map
  passes already.\<close>

lemma map_of_groupByPropertyName:
  "map_of (groupByPropertyName metadata) k =
     (if k \<in> set (map fst metadata)
      then Some (map snd (filter (\<lambda>(k', d). k' = k) metadata)) else None)"
  by (simp add: groupByPropertyName_def map_of_map_restrict restrict_map_def)

lemma allowed_groupByPropertyName:
  "allowed (groupByPropertyName metadata) k =
     (if k \<in> set (map fst metadata) then True else allowed [] k)"
proof (cases "k \<in> set (map fst metadata)")
  case True
  then have "filter (\<lambda>(k', d). k' = k) metadata \<noteq> []"
    by (auto simp: filter_empty_conv)
  with True show ?thesis
    by (simp add: allowed_def map_of_groupByPropertyName)
next
  case False
  then show ?thesis
    by (simp add: allowed_def map_of_groupByPropertyName)
qed

lemma allowed_class:
  "allowed (groupByPropertyName (getTargetValidationMetadatas c)) k =
     (if k \<in> set (getKeys c) then True else allowed [] k)"
  using metadata_keys [of c] by (simp only: allowed_groupByPropertyName)

lemma allowed_empty:
  "allowed [] k =
     (k \<in> set [''constructor'', ''__proto__'', ''__defineGetter__'', ''__defineSetter__'',
        ''hasOwnProperty'', ''__lookupGetter__'', ''__lookupSetter__'', ''isPrototypeOf'',
        ''propertyIsEnumerable''])"
  by (simp add: allowed_def Object_prototype_def)

lemma getKeys_not_inherited: "k \<in> set (getKeys c) \<Longrightarrow> \<not> allowed [] k"
  by (cases c) (auto simp: getKeys_def exposed_def ancestors_def allowed_empty)

lemma whitelist_error_stays:
  assumes "k \<in> set (map fst kvs)" and "k \<notin> set (getKeys c)" and "\<not> allowed [] k"
  shows "ValidationError (Some k) [''whitelistValidation''] []
    \<in> set (validate validatorOptions (JObj (Some c) kvs))"
proof -
  let ?e = "ValidationError (Some k) [''whitelistValidation''] []"
  have "\<not> allowed (groupByPropertyName (getTargetValidationMetadatas c)) k"
    using assms(2,3) by (simp add: allowed_class)
  with assms(1) have "?e \<in> set (whitelistValidation validatorOptions
      (groupByPropertyName (getTargetValidationMetadatas c)) (map fst kvs))"
    by (simp add: whitelistValidation_def validatorOptions_def)
  then have "?e \<in> set (execute validatorOptions (JObj (Some c) kvs))"
    unfolding execute_instance by simp
  then have "strip ?e \<in> set (map strip (execute validatorOptions (JObj (Some c) kvs)))"
    by (simp only: set_map) (rule imageI)
  moreover have "strip ?e = ?e" and "kept ?e"
    by (simp_all add: kept_def)
  ultimately show ?thesis
    by (simp add: validate_def stripEmptyErrors_def)
qed

text \<open>An error of an instance names a field of the class or a key that did not pass.\<close>

lemma execute_property_cases:
  assumes "e \<in> set (execute opts (JObj (Some c) kvs))"
  shows "\<exists>p. property e = Some p \<and>
    (if p \<in> set (getKeys c) then True else p \<in> set (map fst kvs) \<and> \<not> allowed [] p)"
proof -
  from assms consider
    (w) "e \<in> set (whitelistValidation opts
        (groupByPropertyName (getTargetValidationMetadatas c)) (map fst kvs))"
    | (p) pm where "pm \<in> set (groupByPropertyName (getTargetValidationMetadatas c))"
        "e = performValidations (nestedValidations opts) (own kvs (fst pm)) (fst pm) (snd pm)"
    unfolding execute_instance by auto
  then show ?thesis
  proof cases
    case w
    then obtain k where "k \<in> set (map fst kvs)"
      "\<not> allowed (groupByPropertyName (getTargetValidationMetadatas c)) k"
      "e = ValidationError (Some k) [''whitelistValidation''] []"
      by (auto simp: whitelistValidation_def split: if_splits)
    then show ?thesis
      by (auto simp: allowed_class split: if_splits)
  next
    case p
    from p(1) have "fst pm \<in> set (map fst (groupByPropertyName (getTargetValidationMetadatas c)))"
      by (simp only: set_map) (rule imageI)
    then have "fst pm \<in> set (getKeys c)"
      by (simp only: groupByPropertyName_keys metadata_keys)
    with p(2) show ?thesis by simp
  qed
qed

lemma inherited_name_passes:
  assumes "allowed [] k"
  shows "Some k \<notin> set (map property (validate opts (JObj (Some c) kvs)))"
proof
  assume "Some k \<in> set (map property (validate opts (JObj (Some c) kvs)))"
  then obtain e where "e \<in> set (execute opts (JObj (Some c) kvs))" "property e = Some k"
    by (auto simp: validate_def stripEmptyErrors_def)
  with execute_property_cases [of e opts c kvs] assms getKeys_not_inherited [of k c]
  show False
    by (auto split: if_splits)
qed




text \<open>The errors \<^verbatim>\<open>validate\<close> returns for an instance name properties of that instance:
  own keys, or fields of its class.\<close>

lemma execute_properties:
  assumes "e \<in> set (execute opts (JObj (Some c) kvs))"
  shows "\<exists>p. property e = Some p \<and> p \<in> set (map fst kvs) \<union> set (getKeys c)"
  using execute_property_cases [OF assms] by (auto split: if_splits)

lemma validate_properties:
  assumes "e \<in> set (validate opts (JObj (Some c) kvs))"
  shows "\<exists>p. property e = Some p \<and> p \<in> set (map fst kvs) \<union> set (getKeys c)"
proof -
  from assms obtain e' where "e' \<in> set (execute opts (JObj (Some c) kvs))" "e = strip e'"
    by (auto simp: validate_def stripEmptyErrors_def)
  with execute_properties [of e' opts c kvs] show ?thesis by simp
qed

lemma props_text_Some:
  assumes "list_all (\<lambda>p. p \<noteq> None) ps"
  shows "props_text ps = join (map the ps)" and "ps = map Some (map the ps)"
proof -
  from assms have "map (\<lambda>p. case p of None \<Rightarrow> [] | Some k \<Rightarrow> k) ps = map the ps"
    by (induction ps) auto
  then show "props_text ps = join (map the ps)"
    by (simp only: props_text_def)
  from assms show "ps = map Some (map the ps)"
    by (induction ps) auto
qed

lemma Assessment_groups:
  "map fst (groupByPropertyName (getTargetValidationMetadatas Assessment)) = [''chatLogs'']"
  by (simp add: groupByPropertyName_def getTargetValidationMetadatas_def own_metadatas_def
      ancestors_def declared_def)

lemma validate_Assessment_chatLogs:
  assumes "validate validatorOptions (JObj (Some Assessment) [(''chatLogs'', v)]) \<noteq> []"
  shows "map property (validate validatorOptions (JObj (Some Assessment) [(''chatLogs'', v)])) =
    [Some ''chatLogs'']"
proof -
  obtain ms where g: "groupByPropertyName (getTargetValidationMetadatas Assessment) =
      [(''chatLogs'', ms)]"
    using Assessment_groups
    by (cases "groupByPropertyName (getTargetValidationMetadatas Assessment)") auto
  have "allowed (groupByPropertyName (getTargetValidationMetadatas Assessment)) ''chatLogs''"
    by (simp add: allowed_class getKeys_Assessment)
  then have "execute validatorOptions (JObj (Some Assessment) [(''chatLogs'', v)]) =
      [performValidations (nestedValidations validatorOptions) v ''chatLogs'' ms]"
    unfolding execute_instance by (simp add: whitelistValidation_def own_def g)
  with assms show ?thesis
    by (simp add: validate_def stripEmptyErrors_def split: if_splits)
qed

text \<open>Whatever the validation finds in an entity the transform built, the error raised
  lists \<^verbatim>\<open>chatLogs\<close>.\<close>

lemma fromObject_validation_failure:
  assumes t: "plainToInstance toTime Assessment (JObj c0 raw) = Inr entity"
    and ne: "validate validatorOptions entity \<noteq> []"
  shows "snd (Assessment_fromObject toTime (JObj c0 raw)) =
    Inl (Error (Assessment_title @ '': chatLogs''))"
proof -
  from t obtain v where v: "entity = JObj (Some Assessment) [(''chatLogs'', v)]"
    using plainToInstance_Assessment_object by blast
  with ne have p: "map property (validate validatorOptions entity) = [Some ''chatLogs'']"
    using validate_Assessment_chatLogs by simp
  with t ne show ?thesis
    by (simp add: Assessment_fromObject_def parsePlainObject_def v Assessment_validate_def
        validateClassInstance_def Let_def props_text_def)
qed

text \<open>
  C2 (as amended). When validation fails, the \<^verbatim>\<open>Error\<close> raised carries the title, a colon,
  and the comma-joined \<open>property\<close> of each error that \<^verbatim>\<open>validate\<close> returns for the instance
  itself, in the library's order: names of the instance's own properties. A violation
  inside a nested object is listed as the top-level property that holds the object, and
  no dotted or bracket path is built: whatever fails inside an \<open>Assessment\<close> built by the
  transform, the list is \<^verbatim>\<open>chatLogs\<close>.
\<close>

theorem validateClassInstance_lists_top_level:
  "(validate validatorOptions (JObj (Some c) kvs) \<noteq> [] \<longrightarrow>
      (\<exists>props. props \<noteq> [] \<and> set props \<subseteq> set (map fst kvs) \<union> set (getKeys c) \<and>
         map property (validate validatorOptions (JObj (Some c) kvs)) = map Some props \<and>
         snd (validateClassInstance (JObj (Some c) kvs) type errorMsgTitle) =
           Inl (Error (errorMsgTitle @ '': '' @ join props)))) \<and>
   (plainToInstance toTime Assessment (JObj c0 raw) = Inr entity \<and>
    validate validatorOptions entity \<noteq> [] \<longrightarrow>
      snd (Assessment_fromObject toTime (JObj c0 raw)) =
        Inl (Error (Assessment_title @ '': chatLogs'')))"
proof (intro conjI impI)
  let ?errors = "validate validatorOptions (JObj (Some c) kvs)"
  let ?props = "map the (map property ?errors)"
  assume ne: "?errors \<noteq> []"
  have some: "list_all (\<lambda>p. p \<noteq> None) (map property ?errors)"
    using validate_properties [of _ validatorOptions c kvs]
    by (fastforce simp: list_all_iff)
  have "set ?props \<subseteq> set (map fst kvs) \<union> set (getKeys c)"
  proof
    fix p
    assume "p \<in> set ?props"
    then obtain e where e: "e \<in> set ?errors" and p: "p = the (property e)"
      by auto
    from validate_properties [OF e] obtain q where
      "property e = Some q" "q \<in> set (map fst kvs) \<union> set (getKeys c)"
      by blast
    with p show "p \<in> set (map fst kvs) \<union> set (getKeys c)"
      by simp
  qed
  moreover have "?props \<noteq> []"
    using ne by simp
  moreover have "map property ?errors = map Some ?props"
    using props_text_Some(2) [OF some] .
  moreover have "snd (validateClassInstance (JObj (Some c) kvs) type errorMsgTitle) =
      Inl (Error (errorMsgTitle @ '': '' @ join ?props))"
    using ne props_text_Some(1) [OF some]
    by (simp add: validateClassInstance_def Let_def)
  ultimately show "\<exists>props. props \<noteq> [] \<and> set props \<subseteq> set (map fst kvs) \<union> set (getKeys c) \<and>
         map property ?errors = map Some props \<and>
         snd (validateClassInstance (JObj (Some c) kvs) type errorMsgTitle) =
           Inl (Error (errorMsgTitle @ '': '' @ join props))"
    by blast
next
  assume "plainToInstance toTime Assessment (JObj c0 raw) = Inr entity \<and>
    validate validatorOptions entity \<noteq> []"
  then show "snd (Assessment_fromObject toTime (JObj c0 raw)) =
        Inl (Error (Assessment_title @ '': chatLogs''))"
    by (simp add: fromObject_validation_failure)
qed

text \<open>
  C2 as stated fails: on a graph whose message has a sender outside the enumeration and
  an answer with an empty text, \<^verbatim>\<open>validate\<close> finds both, nested under \<^verbatim>\<open>chatLogs\<close>, and
  the error raised lists \<^verbatim>\<open>chatLogs\<close> alone, neither \<^verbatim>\<open>sender\<close> nor \<^verbatim>\<open>text\<close>, and no path.
\<close>

theorem nested_paths_counterexample:
  "validate validatorOptions two_violations =
     [ValidationError (Some ''chatLogs'') []
        [ValidationError (Some ''0'') []
           [ValidationError (Some ''sender'') [''isEnum''] [],
            ValidationError (Some ''data'') []
              [ValidationError (Some ''text'') [''isNotEmpty''] []]]]] \<and>
   snd (validateClassInstance two_violations Assessment Assessment_title) =
     Inl (Error ''The following field values do not meet constraints in Assessment: chatLogs'')"
  by code_simp


theorem validateClassInstance_lists_top_level_witness:
  "(\<exists>props. props \<noteq> [] \<and> set props \<subseteq> {''chatLogs''} \<and>
      snd (validateClassInstance (JObj (Some Assessment) [(''chatLogs'', JStr ''x'')])
             Assessment Assessment_title) =
        Inl (Error (Assessment_title @ '': '' @ join props))) \<and>
   snd (Assessment_fromObject Invalid_Date (JObj None [(''chatLogs'', JStr ''x'')])) =
     Inl (Error (Assessment_title @ '': chatLogs''))"
proof -
  have t: "plainToInstance Invalid_Date Assessment (JObj None [(''chatLogs'', JStr ''x'')]) =
      Inr (JObj (Some Assessment) [(''chatLogs'', JStr ''x'')])"
    by code_simp
  have v: "validate validatorOptions (JObj (Some Assessment) [(''chatLogs'', JStr ''x'')]) =
      [ValidationError (Some ''chatLogs'') [''isArray'', ''nestedValidation''] []]"
    by code_simp
  have k: "getKeys Assessment = [''chatLogs'']"
    by (simp add: getKeys_def exposed_def ancestors_def)
  show ?thesis
    using validateClassInstance_lists_top_level
      [of Assessment "[(''chatLogs'', JStr ''x'')]" Assessment Assessment_title Invalid_Date
          None "[(''chatLogs'', JStr ''x'')]"
          "JObj (Some Assessment) [(''chatLogs'', JStr ''x'')]"] t
    unfolding v k by (simp, blast)
qed


section \<open>Failures of the two stages\<close>

lemma traverse_all2:
  "traverse f xs = Inr ys \<Longrightarrow> list_all2 (\<lambda>x y. f x = Inr y) xs ys"
  by (induction xs arbitrary: ys) (auto split: sum.splits)

lemma list_all2_member:
  "list_all2 P xs ys \<Longrightarrow> x \<in> set xs \<Longrightarrow> \<exists>y\<in>set ys. P x y"
  by (induction rule: list_all2_induct) auto

lemma traverse_lookup:
  assumes "traverse f ks = Inr vs" and "\<And>k y. f k = Inr y \<Longrightarrow> fst y = k" and "k \<in> set ks"
  shows "f k = Inr (k, own vs k)"
  using assms(1,3)
proof (induction ks arbitrary: vs)
  case Nil
  then show ?case by simp
next
  case (Cons k' ks)
  from Cons.prems(1) obtain y vs' where
    y: "f k' = Inr y" and vs': "traverse f ks = Inr vs'" and vs: "vs = y # vs'"
    by (auto split: sum.splits)
  from assms(2) [OF y] obtain v' where v': "y = (k', v')"
    by (cases y) auto
  show ?case
  proof (cases "k = k'")
    case True
    with y v' vs show ?thesis
      by (simp add: own_def)
  next
    case False
    with Cons.prems(2) have "k \<in> set ks"
      by simp
    from Cons.IH [OF vs' this] False v' vs show ?thesis
      by (simp add: own_def)
  qed
qed

text \<open>The fields of a transformed object are the transformed fields of the raw node.\<close>

lemma transform_class_fields:
  assumes "transform toTime (Some (TClass t)) (JObj c kvs) = Inr r" and "key \<in> set (getKeys t)"
  shows "\<exists>vs type. r = JObj (Some t) vs \<and> field_type t key (JObj c kvs) = Inr type \<and>
    transform toTime type (own kvs key) = Inr (own vs key)"
proof -
  let ?f = "\<lambda>key.
      case field_type t key (JObj c kvs) of
        Inl e \<Rightarrow> Inl e
      | Inr type \<Rightarrow>
          (case transform toTime type (own kvs key) of
             Inl e \<Rightarrow> Inl e
           | Inr finalValue \<Rightarrow> Inr (key, finalValue))"
  from assms(1) obtain vs where vs: "traverse ?f (getKeys t) = Inr vs" and r: "r = JObj (Some t) vs"
    by (auto split: sum.splits)
  have "?f key = Inr (key, own vs key)"
    by (rule traverse_lookup [OF vs _ assms(2)]) (auto split: sum.splits)
  with r show ?thesis
    by (auto split: sum.splits)
qed

lemma field_type_chatLogs:
  "field_type Assessment ''chatLogs'' object = Inr (Some (TClass Message))"
  by (simp add: field_type_def findTypeMetadata_def ancestors_def)

lemma field_type_time: "field_type Message ''time'' object = Inr (Some TDate)"
  by (simp add: field_type_def findTypeMetadata_def ancestors_def)

lemma time_in_getKeys: "''time'' \<in> set (getKeys Message)"
  by (simp add: getKeys_def exposed_def ancestors_def)

text \<open>A message of the raw \<^verbatim>\<open>chatLogs\<close> array with an unreadable \<^verbatim>\<open>time\<close> text becomes a
  \<open>Message\<close> instance of the entity whose \<^verbatim>\<open>time\<close> is an Invalid Date.\<close>

lemma invalid_time_transformed:
  assumes t: "plainToInstance toTime Assessment (JObj c kvs) = Inr entity"
    and ms: "own kvs ''chatLogs'' = JArr ms" and m: "JObj c' mkvs \<in> set ms"
    and s: "own mkvs ''time'' = JStr s" and n: "toTime (JStr s) = None"
  shows "\<exists>ms' vs. entity = JObj (Some Assessment) [(''chatLogs'', JArr ms')] \<and>
    JObj (Some Message) vs \<in> set ms' \<and> own vs ''time'' = JDate None"
proof -
  from t obtain v where v: "entity = JObj (Some Assessment) [(''chatLogs'', v)]"
    using plainToInstance_Assessment_object by blast
  from transform_class_fields [of toTime Assessment c kvs entity "''chatLogs''"] t v ms
  have "transform toTime (Some (TClass Message)) (JArr ms) = Inr v"
    by (auto simp: plainToInstance_def getKeys_Assessment field_type_chatLogs own_def)
  then obtain ms' where ms': "v = JArr ms'"
    and tr: "traverse (transform toTime (Some (TClass Message))) ms = Inr ms'"
    by (auto split: sum.splits)
  from list_all2_member [OF traverse_all2 [OF tr] m] obtain m' where m': "m' \<in> set ms'"
    and tm: "transform toTime (Some (TClass Message)) (JObj c' mkvs) = Inr m'"
    by blast
  from transform_class_fields [OF tm time_in_getKeys] s n obtain vs where
    "m' = JObj (Some Message) vs" "own vs ''time'' = JDate None"
    by (auto simp: field_type_time new_Date_def)
  with v ms' m' show ?thesis
    by blast
qed


declare execute.simps [simp del]

declare nestedValidations.simps [simp del]

text \<open>An error that breaks a constraint, or holds a child that is kept, is kept.\<close>

lemma kept_strip_constraints: "constraints e \<noteq> [] \<Longrightarrow> kept (strip e)"
  by (cases e) (simp add: kept_def)

lemma kept_strip_child:
  assumes "e' \<in> set ch" and "kept (strip e')"
  shows "kept (strip (ValidationError p cs ch))"
proof -
  from assms have "strip e' \<in> set (filter kept (map strip ch))"
    by simp
  then have "filter kept (map strip ch) \<noteq> []"
    by (metis empty_iff empty_set)
  then show ?thesis
    by (simp add: kept_def)
qed

lemma Message_time_group:
  "(''time'', [IsOptional, IsDate]) \<in> set (groupByPropertyName (getTargetValidationMetadatas Message))"
  by (simp add: groupByPropertyName_def getTargetValidationMetadatas_def own_metadatas_def
      ancestors_def declared_def)

lemma Assessment_chatLogs_group:
  "groupByPropertyName (getTargetValidationMetadatas Assessment) =
     [(''chatLogs'', [IsOptional, ValidateNested True, IsArray])]"
  by (simp add: groupByPropertyName_def getTargetValidationMetadatas_def own_metadatas_def
      ancestors_def declared_def)

lemma execute_invalid_time:
  assumes "own vs ''time'' = JDate None"
  shows "\<exists>e\<in>set (execute opts (JObj (Some Message) vs)). kept (strip e)"
proof -
  let ?e = "performValidations (nestedValidations opts) (own vs ''time'') ''time''
      [IsOptional, IsDate]"
  have "?e = ValidationError (Some ''time'') [''isDate''] []"
    by (simp add: assms performValidations_def of_type_def customValidations_def violated_def)
  then have "kept (strip ?e)"
    by (simp add: kept_def)
  moreover have "?e \<in> set (execute opts (JObj (Some Message) vs))"
    unfolding execute_instance using Message_time_group by force
  ultimately show ?thesis
    by blast
qed

lemma nested_array_element:
  assumes "x \<in> set xs"
  shows "\<exists>index. ValidationError (Some (decimal index)) (fst (nestedValidations opts x))
      (snd (nestedValidations opts x)) \<in> set (snd (nestedValidations opts (JArr xs)))"
proof -
  from assms obtain i where i: "i < length xs" "xs ! i = x"
    by (auto simp: in_set_conv_nth)
  then have "(i, x) \<in> set (zip [0..<length xs] xs)"
    by (auto simp: in_set_zip intro!: exI [of _ i])
  then have "(case (i, x) of (index, subValue) \<Rightarrow>
        case nestedValidations opts subValue of
          (cs, ch) \<Rightarrow> ValidationError (Some (decimal index)) cs ch)
      \<in> set (snd (nestedValidations opts (JArr xs)))"
    by (simp only: nestedValidations.simps snd_conv set_map) (rule imageI)
  then show ?thesis
    by (auto simp: case_prod_beta)
qed

lemma validate_invalid_time:
  assumes "JObj (Some Message) vs \<in> set ms'" and "own vs ''time'' = JDate None"
  shows "validate opts (JObj (Some Assessment) [(''chatLogs'', JArr ms')]) \<noteq> []"
proof -
  from execute_invalid_time [OF assms(2)] obtain e where
    e: "e \<in> set (execute opts (JObj (Some Message) vs))" "kept (strip e)"
    by blast
  from nested_array_element [OF assms(1), of opts] obtain index where
    "ValidationError (Some (decimal index)) [] (execute opts (JObj (Some Message) vs))
      \<in> set (snd (nestedValidations opts (JArr ms')))"
    by (auto simp: nestedValidations.simps(3))
  moreover have "kept (strip (ValidationError (Some (decimal index)) []
      (execute opts (JObj (Some Message) vs))))"
    using e by (rule kept_strip_child)
  ultimately have k: "kept (strip (ValidationError (Some ''chatLogs'') [] 
      (snd (nestedValidations opts (JArr ms')))))"
    by (rule kept_strip_child)
  have "execute opts (JObj (Some Assessment) [(''chatLogs'', JArr ms')]) =
      [ValidationError (Some ''chatLogs'') [] (snd (nestedValidations opts (JArr ms')))]"
    unfolding execute_instance Assessment_chatLogs_group
    by (simp add: whitelistValidation_def allowed_def own_def performValidations_def of_type_def
        customValidations_def violated_def nestedValidations.simps(2))
  with k show ?thesis
    by (simp add: validate_def stripEmptyErrors_def)
qed

text \<open>The type functions read \<^verbatim>\<open>sender\<close>, \<^verbatim>\<open>data\<close> and \<^verbatim>\<open>question\<close> of the raw node and
  nothing else.\<close>

lemma findTypeMetadata_cases:
  assumes "findTypeMetadata t key = Some f"
  shows "(t = Message \<and> f = (\<lambda>object. map_sum id TClass (Message_data_type object))) \<or>
    (t = Answer \<and> f = (\<lambda>object. map_sum id TClass (Answer_question_type object))) \<or>
    (\<exists>ty. f = (\<lambda>object. Inr ty))"
  using assms by (cases t) (auto simp: findTypeMetadata_def ancestors_def split: if_splits)

lemma field_type_reads:
  assumes "t = Message \<Longrightarrow> own kvs' ''sender'' = own kvs ''sender''"
    and "t = Message \<Longrightarrow> own kvs' ''data'' = own kvs ''data''"
    and "t = Answer \<Longrightarrow> own kvs' ''question'' = own kvs ''question''"
  shows "field_type t key (JObj c' kvs') = field_type t key (JObj c kvs)"
proof (cases "findTypeMetadata t key")
  case None
  then show ?thesis
    by (simp add: field_type_def)
next
  case (Some f)
  from findTypeMetadata_cases [OF Some] have "f (JObj c' kvs') = f (JObj c kvs)"
  proof (elim disjE conjE exE)
    assume t: "t = Message" and f: "f = (\<lambda>object. map_sum id TClass (Message_data_type object))"
    from assms t have "own kvs' ''sender'' = own kvs ''sender''" "own kvs' ''data'' = own kvs ''data''"
      by simp_all
    with f show ?thesis
      by (simp add: Message_data_type_def cong: sum.case_cong if_cong)
  next
    assume t: "t = Answer" and f: "f = (\<lambda>object. map_sum id TClass (Answer_question_type object))"
    from assms t have "own kvs' ''question'' = own kvs ''question''"
      by simp
    with f show ?thesis
      by (simp add: Answer_question_type_def cong: sum.case_cong if_cong)
  next
    fix ty
    assume "f = (\<lambda>object. Inr ty)"
    then show ?thesis by simp
  qed
  with Some show ?thesis
    by (simp add: field_type_def)
qed

lemma failure_passed_on:
  "((case x of Inl e \<Rightarrow> Inl e | Inr y \<Rightarrow> Inr (g y)) = Inl e) = (x = Inl e)"
  by (cases x) auto

lemma fail_alike_return_alike:
  fixes a :: "'e + 'a" and b :: "'e + 'b"
  assumes "\<And>e. (a = Inl e) = (b = Inl e)"
  shows "(\<exists>y. a = Inr y) = (\<exists>y. b = Inr y)"
proof (cases a)
  case (Inl e)
  with assms [of e] have "b = Inl e"
    by simp
  with Inl show ?thesis
    by simp
next
  case (Inr y)
  have "b \<noteq> Inl e" for e
    using assms [of e] Inr by simp
  then have "\<exists>y'. b = Inr y'"
    by (cases b) blast+
  with Inr show ?thesis
    by simp
qed

text \<open>Two loops fail alike when their steps do.\<close>

lemma traverse_failure_cong:
  assumes "\<And>x e. x \<in> set xs \<Longrightarrow> (f x = Inl e) = (g x = Inl e)"
  shows "(traverse f xs = Inl e) = (traverse g xs = Inl e)"
  using assms
proof (induction xs)
  case Nil
  then show ?case by simp
next
  case (Cons x xs)
  have x: "(f x = Inl e') = (g x = Inl e')" for e'
    using Cons.prems by simp
  have xs: "(traverse f xs = Inl e) = (traverse g xs = Inl e)"
    using Cons.prems by (intro Cons.IH) simp
  show ?case
  proof (cases "f x")
    case (Inl e')
    with x [of e'] show ?thesis by simp
  next
    case (Inr y)
    with fail_alike_return_alike [of "f x" "g x"] x have "\<exists>y'. g x = Inr y'"
      by blast
    with Inr xs show ?thesis
      by (auto split: sum.splits)
  qed
qed

lemma own_filter: "P k \<Longrightarrow> own (filter (\<lambda>(k, v). P k) kvs) k = own kvs k"
  by (induction kvs) (auto simp: own_def)

lemma own_filtered: "\<not> P k \<Longrightarrow> own (filter (\<lambda>(k, v). P k) kvs) k = JUndefined"
  by (induction kvs) (auto simp: own_def)

text \<open>A text under \<^verbatim>\<open>time\<close> is no failure of the transform: a message fails as it fails
  without its \<^verbatim>\<open>time\<close>.\<close>

lemma time_text_no_failure:
  assumes "own mkvs ''time'' = JStr s"
  shows "(transform toTime (Some (TClass Message)) (JObj c mkvs) = Inl e) =
    (transform toTime (Some (TClass Message))
       (JObj c (filter (\<lambda>(k, v). k \<noteq> ''time'') mkvs)) = Inl e)"
proof -
  let ?kvs = "filter (\<lambda>(k, v). k \<noteq> ''time'') mkvs"
  let ?f = "\<lambda>kvs key.
      case field_type Message key (JObj c kvs) of
        Inl e \<Rightarrow> Inl e
      | Inr type \<Rightarrow>
          (case transform toTime type (own kvs key) of
             Inl e \<Rightarrow> Inl e
           | Inr finalValue \<Rightarrow> Inr (key, finalValue))"
  have "(?f mkvs key = Inl e') = (?f ?kvs key = Inl e')" for key e'
  proof (cases "key = ''time''")
    case True
    have "own ?kvs ''time'' = JUndefined"
      by (rule own_filtered) simp
    with True assms show ?thesis
      by (simp add: field_type_time new_Date_def)
  next
    case False
    then have "own ?kvs key = own mkvs key"
      by (intro own_filter) simp
    moreover have "field_type Message key (JObj c ?kvs) = field_type Message key (JObj c mkvs)"
      by (rule field_type_reads) (simp_all add: own_filter)
    ultimately show ?thesis
      by (simp cong: sum.case_cong)
  qed
  then have "(traverse (?f mkvs) (getKeys Message) = Inl e) =
      (traverse (?f ?kvs) (getKeys Message) = Inl e)"
    by (intro traverse_failure_cong)
  then show ?thesis
    by (simp add: failure_passed_on)
qed

lemma plainToInstance_Assessment_failure:
  assumes "own kvs ''chatLogs'' = JArr ms"
  shows "(plainToInstance toTime Assessment (JObj c kvs) = Inl e) =
    (traverse (transform toTime (Some (TClass Message))) ms = Inl e)"
  using assms
  by (simp add: plainToInstance_def getKeys_Assessment field_type_chatLogs failure_passed_on
      split: sum.splits)

lemma traverse_append_failure:
  "(traverse f (xs @ x # ys) = Inl e) =
     (traverse f xs = Inl e \<or>
      (\<exists>r. traverse f xs = Inr r) \<and>
        (f x = Inl e \<or> (\<exists>y. f x = Inr y) \<and> traverse f ys = Inl e))"
  by (induction xs) (auto split: sum.splits)

lemma fromObject_time_text_no_failure:
  assumes "own kvs ''chatLogs'' = JArr (xs @ JObj c' mkvs # ys)" and "own mkvs ''time'' = JStr s"
  shows "(plainToInstance toTime Assessment (JObj c kvs) = Inl e) =
    (plainToInstance toTime Assessment
       (JObj c [(''chatLogs'',
          JArr (xs @ JObj c' (filter (\<lambda>(k, v). k \<noteq> ''time'') mkvs) # ys))]) = Inl e)"
proof -
  let ?m = "JObj c' mkvs" and ?m' = "JObj c' (filter (\<lambda>(k, v). k \<noteq> ''time'') mkvs)"
  let ?t = "transform toTime (Some (TClass Message))"
  have m: "(?t ?m = Inl e') = (?t ?m' = Inl e')" for e'
    using assms(2) by (rule time_text_no_failure)
  have r: "(\<exists>y. ?t ?m = Inr y) = (\<exists>y. ?t ?m' = Inr y)"
    by (rule fail_alike_return_alike) (rule m)
  have "(traverse ?t (xs @ ?m # ys) = Inl e) = (traverse ?t (xs @ ?m' # ys) = Inl e)"
    unfolding traverse_append_failure m r ..
  moreover have "own [(''chatLogs'', JArr (xs @ ?m' # ys))] ''chatLogs'' = JArr (xs @ ?m' # ys)"
    by (simp add: own_def)
  ultimately show ?thesis
    using assms(1) by (simp only: plainToInstance_Assessment_failure)
qed





section \<open>Keys outside the schema\<close>

lemma traverse_results:
  "traverse f xs = Inr ys \<Longrightarrow> y \<in> set ys \<Longrightarrow> \<exists>x\<in>set xs. f x = Inr y"
  by (induction xs arbitrary: ys) (auto split: sum.splits)

lemma transform_declared_only:
  "transform toTime targetType v = Inr r \<Longrightarrow> declared_only r"
proof (induction toTime targetType v arbitrary: r rule: transform.induct)
  case (1 toTime targetType xs)
  from "1.prems" obtain ys where ys: "traverse (transform toTime targetType) xs = Inr ys"
    and r: "r = JArr ys"
    by (auto split: sum.splits)
  have "declared_only y" if "y \<in> set ys" for y
    using traverse_results [OF ys that] "1.IH" by blast
  with r show ?case
    by (simp add: list_all_iff)
next
  case (3 toTime targetType c kvs)
  show ?case
  proof (cases "targetType = Some TDate")
    case True
    with "3.prems" show ?thesis by (auto simp: new_Date_def split: if_splits)
  next
    case d: False
    show ?thesis
    proof (cases "case targetType of Some (TClass t) \<Rightarrow> Some t | _ \<Rightarrow> c")
      case None
      let ?f = "\<lambda>key. case transform toTime None (own kvs key) of
          Inl e \<Rightarrow> Inl e | Inr finalValue \<Rightarrow> Inr (key, finalValue)"
      from "3.prems" None d obtain vs where
        vs: "traverse ?f (filter (\<lambda>key. key \<notin> set (map fst Object_prototype)) (map fst kvs)) = Inr vs"
        and r: "r = JObj None vs"
        by (auto split: sum.splits)
      have "declared_only (snd y)" if "y \<in> set vs" for y
      proof -
        from traverse_results [OF vs that] obtain key where
          key: "key \<in> set (filter (\<lambda>key. key \<notin> set (map fst Object_prototype)) (map fst kvs))"
          and y: "?f key = Inr y"
          by blast
        from y have "transform toTime None (own kvs key) = Inr (snd y)"
          by (auto split: sum.splits)
        with "3.IH"(1) [OF d None key] show ?thesis
          by blast
      qed
      with r show ?thesis
        by (simp add: list_all_iff case_prod_beta)
    next
      case (Some t)
      let ?f = "\<lambda>key.
          case field_type t key (JObj c kvs) of
            Inl e \<Rightarrow> Inl e
          | Inr type \<Rightarrow>
              (case transform toTime type (own kvs key) of
                 Inl e \<Rightarrow> Inl e
               | Inr finalValue \<Rightarrow> Inr (key, finalValue))"
      from "3.prems" Some d obtain vs where vs: "traverse ?f (getKeys t) = Inr vs"
        and r: "r = JObj (Some t) vs"
        by (auto split: sum.splits)
      have keys: "map fst vs = getKeys t"
        by (rule traverse_keys [OF vs]) (auto split: sum.splits)
      have "declared_only (snd y)" if "y \<in> set vs" for y
      proof -
        from traverse_results [OF vs that] obtain key where key: "key \<in> set (getKeys t)"
          and y: "?f key = Inr y"
          by blast
        from y obtain type where type: "field_type t key (JObj c kvs) = Inr type"
          and "transform toTime type (own kvs key) = Inr (snd y)"
          by (auto split: sum.splits)
        with "3.IH"(2) [OF d Some key type] show ?thesis
          by blast
      qed
      with r keys show ?thesis
        by (simp add: list_all_iff case_prod_beta)
    qed
  qed
qed (auto simp: new_Date_def split: if_splits)


text \<open>The type functions read declared fields only, so the transform of a node depends
  on the node's declared fields alone.\<close>

lemma field_type_agree:
  assumes "\<forall>key\<in>set (getKeys t). own kvs' key = own kvs key"
  shows "field_type t key (JObj c' kvs') = field_type t key (JObj c kvs)"
  by (rule field_type_reads) (use assms in \<open>simp_all add: getKeys_def exposed_def ancestors_def\<close>)

lemma transform_agree:
  assumes "\<forall>key\<in>set (getKeys t). own kvs' key = own kvs key"
  shows "transform toTime (Some (TClass t)) (JObj c' kvs') =
    transform toTime (Some (TClass t)) (JObj c kvs)"
proof -
  let ?f = "\<lambda>c kvs key.
      case field_type t key (JObj c kvs) of
        Inl e \<Rightarrow> Inl e
      | Inr type \<Rightarrow>
          (case transform toTime type (own kvs key) of
             Inl e \<Rightarrow> Inl e
           | Inr finalValue \<Rightarrow> Inr (key, finalValue))"
  have "traverse (?f c' kvs') (getKeys t) = traverse (?f c kvs) (getKeys t)"
  proof (rule traverse_cong [OF refl])
    fix key
    assume "key \<in> set (getKeys t)"
    with assms have "own kvs' key = own kvs key"
      by blast
    moreover have "field_type t key (JObj c' kvs') = field_type t key (JObj c kvs)"
      by (rule field_type_agree [OF assms])
    ultimately show "?f c' kvs' key = ?f c kvs key"
      by (simp cong: sum.case_cong)
  qed
  then show ?thesis
    by simp
qed

text \<open>Every object under a field that has a type function is an instance in the result.\<close>

lemma field_type_typed:
  "findTypeMetadata t key = Some f \<Longrightarrow> field_type t key object = Inr type \<Longrightarrow> type \<noteq> None"
  by (cases "f object") (auto simp: field_type_def)

lemma transform_instances:
  "transform toTime targetType v = Inr r \<Longrightarrow> targetType \<noteq> None \<Longrightarrow> instances r"
proof (induction toTime targetType v arbitrary: r rule: transform.induct)
  case (1 toTime targetType xs)
  from "1.prems" obtain ys where ys: "traverse (transform toTime targetType) xs = Inr ys"
    and r: "r = JArr ys"
    by (auto split: sum.splits)
  have "instances y" if "y \<in> set ys" for y
    using traverse_results [OF ys that] "1.IH" "1.prems"(2) by blast
  with r show ?case
    by (simp add: list_all_iff)
next
  case (3 toTime targetType c kvs)
  show ?case
  proof (cases "targetType = Some TDate")
    case True
    with "3.prems" show ?thesis by (auto simp: new_Date_def split: if_splits)
  next
    case d: False
    with "3.prems"(2) obtain t where t: "targetType = Some (TClass t)"
      by (cases targetType) (auto intro: ttype.exhaust)
    then have s: "(case targetType of Some (TClass t) \<Rightarrow> Some t | _ \<Rightarrow> c) = Some t"
      by simp
    let ?f = "\<lambda>key.
        case field_type t key (JObj c kvs) of
          Inl e \<Rightarrow> Inl e
        | Inr type \<Rightarrow>
            (case transform toTime type (own kvs key) of
               Inl e \<Rightarrow> Inl e
             | Inr finalValue \<Rightarrow> Inr (key, finalValue))"
    from "3.prems" t obtain vs where vs: "traverse ?f (getKeys t) = Inr vs"
      and r: "r = JObj (Some t) vs"
      by (auto split: sum.splits)
    have keys: "map fst vs = getKeys t"
      by (rule traverse_keys [OF vs]) (auto split: sum.splits)
    have "instances (snd y)" if y: "y \<in> set vs" and f: "findTypeMetadata t (fst y) = Some f"
      for y f
    proof -
      from traverse_results [OF vs y] obtain key where key: "key \<in> set (getKeys t)"
        and fy: "?f key = Inr y"
        by blast
      from fy obtain type where type: "field_type t key (JObj c kvs) = Inr type"
        and tr: "transform toTime type (own kvs key) = Inr (snd y)" and k: "fst y = key"
        by (auto split: sum.splits)
      from f k type have "type \<noteq> None"
        by (auto dest: field_type_typed)
      with "3.IH"(2) [OF d s key type tr] show ?thesis
        by blast
    qed
    with r keys show ?thesis
      by (auto simp: list_all_iff split: option.splits)
  qed
qed (auto simp: new_Date_def split: if_splits)

text \<open>Pruning a raw node leaves what the type functions read.\<close>

lemma own_pruned:
  "own (map (\<lambda>(k, v). (k, g k v)) (filter (\<lambda>(k, v). P k) kvs)) key =
     (if P key then (case map_of kvs key of None \<Rightarrow> JUndefined | Some v \<Rightarrow> g key v)
      else JUndefined)"
  by (induction kvs) (auto simp: own_def)

lemma own_prune:
  assumes "key \<in> set (getKeys t)"
  shows "own (map (\<lambda>(k, v).
               (k, case field_type t k (JObj c kvs) of
                     Inr (Some (TClass t')) \<Rightarrow> prune t' v
                   | _ \<Rightarrow> v))
          (filter (\<lambda>(k, v). k \<in> set (getKeys t)) kvs)) key =
     (case field_type t key (JObj c kvs) of
        Inr (Some (TClass t')) \<Rightarrow> prune t' (own kvs key)
      | _ \<Rightarrow> own kvs key)"
proof (cases "map_of kvs key")
  case None
  then have "own kvs key = JUndefined"
    by (simp add: own_def)
  with None assms show ?thesis
    by (simp add: own_pruned split: sum.splits option.splits ttype.splits)
next
  case (Some v)
  then have "own kvs key = v"
    by (simp add: own_def)
  with Some assms show ?thesis
    by (simp add: own_pruned split: sum.splits option.splits ttype.splits)
qed

lemma types_untyped:
  assumes "t \<in> {Hint, ButtonGroupQuestion, Question}"
  shows "''types'' \<in> set (getKeys t)" and "field_type t ''types'' object = Inr None"
proof -
  from assms have t: "t = Hint \<or> t = ButtonGroupQuestion \<or> t = Question"
    by simp
  then show "''types'' \<in> set (getKeys t)"
    by (elim disjE) (simp_all add: getKeys_def exposed_def ancestors_def)
  from t show "field_type t ''types'' object = Inr None"
    by (elim disjE) (simp_all add: field_type_def findTypeMetadata_def ancestors_def)
qed

lemma opt_chain_prune_types:
  assumes "t \<in> {Hint, ButtonGroupQuestion, Question}"
  shows "opt_chain (prune t d) ''types'' = opt_chain d ''types''"
proof (cases d)
  case (JObj c kvs)
  then show ?thesis
    using types_untyped(1) [OF assms] types_untyped(2) [OF assms, of "JObj c kvs"]
    by (simp add: own_prune)
qed simp_all

lemma Message_data_type_range:
  "Message_data_type object = Inr t \<Longrightarrow> t \<in> {Answer, Hint, ButtonGroupQuestion, Question}"
  by (auto simp: Message_data_type_def split: if_splits sum.splits)

lemma Answer_question_type_range:
  "Answer_question_type object = Inr t \<Longrightarrow> t \<in> {ButtonGroupQuestion, Question}"
  by (auto simp: Answer_question_type_def split: if_splits sum.splits)

lemma field_type_sender: "field_type Message ''sender'' object = Inr None"
  by (simp add: field_type_def findTypeMetadata_def ancestors_def)

lemma field_type_data:
  "field_type Message ''data'' object =
     map_sum id (\<lambda>t. Some (TClass t)) (Message_data_type object)"
  by (cases "Message_data_type object")
    (simp_all add: field_type_def findTypeMetadata_def ancestors_def)

lemma field_type_question:
  "field_type Answer ''question'' object =
     map_sum id (\<lambda>t. Some (TClass t)) (Answer_question_type object)"
  by (cases "Answer_question_type object")
    (simp_all add: field_type_def findTypeMetadata_def ancestors_def)

lemma Message_data_type_reads:
  assumes "opt_chain object' ''sender'' = opt_chain object ''sender''"
    and "opt_chain object ''sender'' \<noteq> JStr CANDIDATE \<Longrightarrow>
      opt_chain (opt_chain object' ''data'') ''types'' =
      opt_chain (opt_chain object ''data'') ''types''"
  shows "Message_data_type object' = Message_data_type object"
  using assms by (simp add: Message_data_type_def cong: sum.case_cong if_cong)

lemma Answer_question_type_reads:
  assumes "opt_chain (opt_chain object' ''question'') ''types'' =
      opt_chain (opt_chain object ''question'') ''types''"
  shows "Answer_question_type object' = Answer_question_type object"
  using assms by (simp add: Answer_question_type_def cong: sum.case_cong if_cong)

lemma Message_data_type_prune:
  "Message_data_type (prune Message (JObj c kvs)) = Message_data_type (JObj c kvs)"
proof (rule Message_data_type_reads)
  have s: "''sender'' \<in> set (getKeys Message)" and d: "''data'' \<in> set (getKeys Message)"
    by (simp_all add: getKeys_def exposed_def ancestors_def)
  show "opt_chain (prune Message (JObj c kvs)) ''sender'' = opt_chain (JObj c kvs) ''sender''"
    using s by (simp add: own_prune field_type_sender)
  assume n: "opt_chain (JObj c kvs) ''sender'' \<noteq> JStr CANDIDATE"
  show "opt_chain (opt_chain (prune Message (JObj c kvs)) ''data'') ''types'' =
      opt_chain (opt_chain (JObj c kvs) ''data'') ''types''"
  proof (cases "Message_data_type (JObj c kvs)")
    case (Inl e)
    with d show ?thesis
      by (simp add: own_prune field_type_data)
  next
    case (Inr t)
    with n have "t \<in> {Hint, ButtonGroupQuestion, Question}"
      by (auto simp: Message_data_type_def split: if_splits sum.splits)
    then have "opt_chain (prune t v) ''types'' = opt_chain v ''types''" for v
      by (rule opt_chain_prune_types)
    with d Inr show ?thesis
      by (simp add: own_prune field_type_data)
  qed
qed

lemma Answer_question_type_prune:
  "Answer_question_type (prune Answer (JObj c kvs)) = Answer_question_type (JObj c kvs)"
proof (rule Answer_question_type_reads)
  have q: "''question'' \<in> set (getKeys Answer)"
    by (simp add: getKeys_def exposed_def ancestors_def)
  show "opt_chain (opt_chain (prune Answer (JObj c kvs)) ''question'') ''types'' =
      opt_chain (opt_chain (JObj c kvs) ''question'') ''types''"
  proof (cases "Answer_question_type (JObj c kvs)")
    case (Inl e)
    with q show ?thesis
      by (simp add: own_prune field_type_question)
  next
    case (Inr t)
    then have "t \<in> {Hint, ButtonGroupQuestion, Question}"
      using Answer_question_type_range by blast
    then have "opt_chain (prune t v) ''types'' = opt_chain v ''types''" for v
      by (rule opt_chain_prune_types)
    with q Inr show ?thesis
      by (simp add: own_prune field_type_question)
  qed
qed

lemma field_type_prune:
  "field_type t key (prune t (JObj c kvs)) = field_type t key (JObj c kvs)"
proof (cases "findTypeMetadata t key")
  case None
  then show ?thesis
    by (simp add: field_type_def)
next
  case (Some f)
  from findTypeMetadata_cases [OF Some]
  have "f (prune t (JObj c kvs)) = f (JObj c kvs)"
  proof (elim disjE conjE exE)
    assume "t = Message" and "f = (\<lambda>object. map_sum id TClass (Message_data_type object))"
    then show ?thesis
      by (simp only: Message_data_type_prune)
  next
    assume "t = Answer" and "f = (\<lambda>object. map_sum id TClass (Answer_question_type object))"
    then show ?thesis
      by (simp only: Answer_question_type_prune)
  next
    fix ty
    assume "f = (\<lambda>object. Inr ty)"
    then show ?thesis by simp
  qed
  with Some show ?thesis
    by (simp add: field_type_def)
qed

lemma traverse_map: "traverse f (map g xs) = traverse (\<lambda>x. f (g x)) xs"
  by (induction xs) (simp_all cong: sum.case_cong)

text \<open>The transform of a raw value is the transform of the pruned value.\<close>

lemma transform_prune:
  "transform toTime (Some (TClass t)) (prune t v) = transform toTime (Some (TClass t)) v"
proof (induction t v rule: prune.induct)
  case (1 t xs)
  have "traverse (\<lambda>x. transform toTime (Some (TClass t)) (prune t x)) xs =
      traverse (transform toTime (Some (TClass t))) xs"
    by (rule traverse_cong [OF refl]) (rule "1.IH")
  then show ?case
    by (simp add: traverse_map)
next
  case (2 t c kvs)
  let ?g = "\<lambda>k v. case field_type t k (JObj c kvs) of
      Inr (Some (TClass t')) \<Rightarrow> prune t' v | _ \<Rightarrow> v"
  let ?kvs = "map (\<lambda>(k, v). (k, ?g k v)) (filter (\<lambda>(k, v). k \<in> set (getKeys t)) kvs)"
  let ?f = "\<lambda>kvs key.
      case field_type t key (JObj c kvs) of
        Inl e \<Rightarrow> Inl e
      | Inr type \<Rightarrow>
          (case transform toTime type (own kvs key) of
             Inl e \<Rightarrow> Inl e
           | Inr finalValue \<Rightarrow> Inr (key, finalValue))"
  have p: "prune t (JObj c kvs) = JObj c ?kvs"
    by simp
  have "traverse (?f ?kvs) (getKeys t) = traverse (?f kvs) (getKeys t)"
  proof (rule traverse_cong [OF refl])
    fix key
    assume key: "key \<in> set (getKeys t)"
    have ft: "field_type t key (JObj c ?kvs) = field_type t key (JObj c kvs)"
      using field_type_prune [of t key c kvs] by (simp only: p)
    show "?f ?kvs key = ?f kvs key"
    proof (cases "field_type t key (JObj c kvs)")
      case (Inl e)
      with ft show ?thesis by simp
    next
      case (Inr type)
      have o: "own ?kvs key = ?g key (own kvs key)"
        using key by (rule own_prune)
      have "transform toTime type (own ?kvs key) = transform toTime type (own kvs key)"
      proof (cases "map_of kvs key")
        case None
        then have "own kvs key = JUndefined"
          by (simp add: own_def)
        with o show ?thesis
          by (simp split: sum.splits option.splits ttype.splits)
      next
        case (Some v)
        then have v: "own kvs key = v"
          by (simp add: own_def)
        from Some key have m: "(key, v) \<in> set (filter (\<lambda>(k, v). k \<in> set (getKeys t)) kvs)"
          by (auto dest: map_of_SomeD)
        show ?thesis
        proof (cases type)
          case None
          with Inr o show ?thesis by simp
        next
          case (Some ty)
          show ?thesis
          proof (cases ty)
            case (TClass t')
            from "2.IH" [OF m refl Inr Some TClass] Inr Some TClass o v show ?thesis
              by simp
          next
            case TDate
            with Inr Some o show ?thesis by simp
          qed
        qed
      qed
      with ft Inr show ?thesis by simp
    qed
  qed
  then show ?case
    by (simp only: p transform.simps) simp
qed simp_all

lemma prune_keys:
  "prune t (JObj c kvs) = JObj c' kvs' \<Longrightarrow> set (map fst kvs') \<subseteq> set (getKeys t)"
  by auto



end
